theory Spec2Isabelle
  imports Main "HOL-Library.Word"
begin

unbundle bit_operations_syntax

section \<open>Strings and the library functions the decoder calls\<close>

text \<open>
  A Go string is modelled as the sequence of its code points (the file is UTF-8, and
  every library function used here, \<^verbatim>\<open>strings.TrimSpace\<close>,
  \<^verbatim>\<open>strings.FieldsFunc\<close>, \<^verbatim>\<open>fmt.Sscanf\<close>, walks the string rune by rune).
  All prefixes the code slices off (\<^verbatim>\<open>"Name:"\<close>, \<^verbatim>\<open>"Columns: "\<close>, \<^verbatim>\<open>"#"\<close>) are ASCII,
  so a byte offset there is the same number of runes.
\<close>

type_synonym rune = nat
type_synonym gostring = "rune list"

text \<open>A string literal of the source, as its code points.\<close>

definition str :: "string \<Rightarrow> gostring" where
  "str s = map of_char s"

text \<open>
  \<^verbatim>\<open>unicode.IsSpace\<close>: the Latin-1 spaces
  \<^verbatim>\<open>'\t', '\n', '\v', '\f', '\r', ' ', U+0085, U+00A0\<close> and the other code points of
  Unicode's White_Space property.
\<close>

definition IsSpace :: "rune \<Rightarrow> bool" where
  "IsSpace r \<longleftrightarrow>
     (9 \<le> r \<and> r \<le> 13) \<or> r = 32 \<or> r = 133 \<or> r = 160 \<or> r = 5760 \<or>
     (8192 \<le> r \<and> r \<le> 8202) \<or> r = 8232 \<or> r = 8233 \<or> r = 8239 \<or> r = 8287 \<or>
     r = 12288"

text \<open>\<^verbatim>\<open>strings.TrimSpace\<close>: leading and trailing white space removed.\<close>

definition TrimSpace :: "gostring \<Rightarrow> gostring" where
  "TrimSpace s = rev (dropWhile IsSpace (rev (dropWhile IsSpace s)))"

text \<open>\<^verbatim>\<open>strings.HasPrefix\<close>.\<close>

definition HasPrefix :: "gostring \<Rightarrow> gostring \<Rightarrow> bool" where
  "HasPrefix s p \<longleftrightarrow> take (length p) s = p"

text \<open>
  \<^verbatim>\<open>strings.FieldsFunc(s, f)\<close>, as the library implements it: one pass over the runes
  of \<open>s\<close>, calling \<open>f\<close> once on each rune in order; a rune on which \<open>f\<close> holds ends the
  field that is open (if one is), any other rune opens a field if none is open, and the
  field still open at the end of the string is the last one. The callback of
  \<^verbatim>\<open>parseRow\<close> has a counter, so \<open>f\<close> takes its state and returns the new one. \<open>cur\<close> is
  the open field (\<^verbatim>\<open>s[start:end]\<close> with \<^verbatim>\<open>start >= 0\<close>), \<open>None\<close> when no field is open.
\<close>

fun FieldsFunc :: "('s \<Rightarrow> rune \<Rightarrow> bool \<times> 's) \<Rightarrow> 's \<Rightarrow> gostring option \<Rightarrow> gostring \<Rightarrow> gostring list" where
  "FieldsFunc f st cur [] = (case cur of None \<Rightarrow> [] | Some w \<Rightarrow> [w])"
| "FieldsFunc f st cur (r # rs) =
     (case f st r of
        (True, st') \<Rightarrow>
          (case cur of
             None \<Rightarrow> FieldsFunc f st' None rs
           | Some w \<Rightarrow> w # FieldsFunc f st' None rs)
      | (False, st') \<Rightarrow>
          (case cur of
             None \<Rightarrow> FieldsFunc f st' (Some [r]) rs
           | Some w \<Rightarrow> FieldsFunc f st' (Some (w @ [r])) rs))"

subsection \<open>\<^verbatim>\<open>fmt.Sscanf(field, "%d", &v)\<close>\<close>

text \<open>
  The scan of one decimal integer, as the \<^verbatim>\<open>fmt\<close> package does it for the verb
  \<^verbatim>\<open>%d\<close> into an \<^verbatim>\<open>int\<close> (64 bits): skip leading white space, where a newline is an
  error (\<^verbatim>\<open>Sscanf\<close> does not take newlines for space); fail at the end of the input;
  accept one sign; fail at the end of the input or if no digit follows; take the longest
  run of the digits \<^verbatim>\<open>0\<close> to \<^verbatim>\<open>9\<close>; convert with \<^verbatim>\<open>strconv.ParseInt(tok, 10, 64)\<close>, which
  fails when the value does not fit 64 bits. What follows the digits is not looked at.
  On every failure the variable scanned into keeps its value.
\<close>

datatype scanError = UnexpectedNewline | UnexpectedEOF | ExpectedInteger | ValueOutOfRange

fun SkipSpace :: "gostring \<Rightarrow> scanError + gostring" where
  "SkipSpace [] = Inr []"
| "SkipSpace (r # rs) =
     (if r = 10 then Inl UnexpectedNewline
      else if IsSpace r then SkipSpace rs
      else Inr (r # rs))"

definition isDigit :: "rune \<Rightarrow> bool" where
  "isDigit r \<longleftrightarrow> 48 \<le> r \<and> r \<le> 57"

definition isSign :: "rune \<Rightarrow> bool" where
  "isSign r \<longleftrightarrow> r = 43 \<or> r = 45"

text \<open>The value of a run of decimal digits.\<close>

definition decimal :: "gostring \<Rightarrow> int" where
  "decimal ds = foldl (\<lambda>a d. 10 * a + (int d - 48)) 0 ds"

definition scanNumber :: "bool \<Rightarrow> gostring \<Rightarrow> scanError + int" where
  "scanNumber neg s =
     (case s of
        [] \<Rightarrow> Inl UnexpectedEOF
      | r # rs \<Rightarrow>
          if \<not> isDigit r then Inl ExpectedInteger
          else
            (let i = (if neg then - decimal (takeWhile isDigit s)
                      else decimal (takeWhile isDigit s))
             in if i < - (2 ^ 63) \<or> 2 ^ 63 - 1 < i then Inl ValueOutOfRange else Inr i))"

definition Sscanf_d :: "gostring \<Rightarrow> scanError + int" where
  "Sscanf_d s =
     (case SkipSpace s of
        Inl e \<Rightarrow> Inl e
      | Inr [] \<Rightarrow> Inl UnexpectedEOF
      | Inr (r # rs) \<Rightarrow>
          if isSign r then scanNumber (r = 45) rs else scanNumber False (r # rs))"

section \<open>pipeline.go: channels of lines\<close>

text \<open>
  A channel of lines is modelled by the sequence of values its receiver will get before
  the channel is closed. \<^verbatim>\<open>putBack\<close> makes a channel of capacity one, sends
  \<^verbatim>\<open>line\<close> into it, and a goroutine then forwards every value of \<^verbatim>\<open>inCh\<close>, one send per
  value, before closing it: each send appends to what the receiver will get.
\<close>

type_synonym chan = "gostring list"

definition send :: "chan \<Rightarrow> gostring \<Rightarrow> chan" where
  "send outCh v = outCh @ [v]"

definition putBack :: "gostring \<Rightarrow> chan \<Rightarrow> chan" where
  "putBack line inCh = foldl send (send [] line) inCh"

text \<open>
  A receive \<^verbatim>\<open>line, ok := <-ch\<close>: the next value and \<^verbatim>\<open>true\<close>, or the zero value
  \<^verbatim>\<open>""\<close> and \<^verbatim>\<open>false\<close> once the channel is closed and drained; with the channel that
  is left.
\<close>

fun recv :: "chan \<Rightarrow> (gostring \<times> bool) \<times> chan" where
  "recv [] = (([], False), [])"
| "recv (v # ch) = ((v, True), ch)"

section \<open>palette.go: the decoded document\<close>

text \<open>
  \<^verbatim>\<open>color.RGBA\<close> has four 8-bit channels. The field \<^verbatim>\<open>Color\<close> of an entry is declared as
  the interface \<^verbatim>\<open>color.Color\<close>; the only value ever stored in it is the \<^verbatim>\<open>color.RGBA\<close>
  of \<^verbatim>\<open>parseRow\<close>. The field \<^verbatim>\<open>Name\<close> of an entry is \<open>EntryName\<close> here, the palette
  having a field \<^verbatim>\<open>Name\<close> of its own.
\<close>

record RGBA =
  R :: "8 word"
  G :: "8 word"
  B :: "8 word"
  A :: "8 word"

record PaletteEntry =
  EntryName :: gostring
  Color :: RGBA

record Palette =
  Name :: gostring
  Columns :: int
  Comments :: "gostring list"
  Entries :: "PaletteEntry list"

section \<open>The decoder\<close>

text \<open>
  The package's error values, the wrapped scan error of a bad \<^verbatim>\<open>Columns\<close> line, and the
  error of the reader. An \<^verbatim>\<open>error\<close> built with \<^verbatim>\<open>multierr\<close> is the list of the errors
  appended so far: \<^verbatim>\<open>nil\<close> is the empty list, \<^verbatim>\<open>multierr.AppendInto\<close> appends, and
  \<^verbatim>\<open>errors.Is(err, e)\<close> is membership. \<open>nilDereference\<close> stands for the run-time panic
  of \<^verbatim>\<open>*entry\<close> on a nil pointer.
\<close>

datatype error =
    errBadHeader | errMissingName | errMissingColumns
  | errMissingField | errOutOfRange | errMalformedRow
  | badColumns scanError
  | readError string
  | nilDereference

datatype ParsingMode = ParsingModeLenient | ParsingModeStrict

definition magicHeader :: gostring where
  "magicHeader = str ''GIMP Palette''"

subsection \<open>\<^verbatim>\<open>parseRow\<close>\<close>

text \<open>
  The callback given to \<^verbatim>\<open>strings.FieldsFunc\<close>: a white-space rune is a separator
  while fewer than three runes have been separators. \<open>rowFields\<close> is the variable
  \<^verbatim>\<open>fields\<close> of \<^verbatim>\<open>parseRow\<close>.
\<close>

definition splitFn :: "nat \<Rightarrow> rune \<Rightarrow> bool \<times> nat" where
  "splitFn splitCount r =
     (if IsSpace r \<and> splitCount < 3 then (True, splitCount + 1) else (False, splitCount))"

definition rowFields :: "gostring \<Rightarrow> gostring list" where
  "rowFields line = FieldsFunc splitFn 0 None line"

text \<open>
  \<^verbatim>\<open>math.Trunc(math.Max(0., math.Min(255., float64(v))))\<close> back as an \<^verbatim>\<open>int\<close>: the
  conversion to \<^verbatim>\<open>float64\<close> is monotone and exact on 0 and 255, so the result is 0 for
  a negative \<open>v\<close> and 255 for a \<open>v\<close> above 255, which are the only values it is called on.
\<close>

definition clamp :: "int \<Rightarrow> int" where
  "clamp v = max 0 (min 255 v)"

text \<open>
  The closure \<^verbatim>\<open>processField\<close>: the channel value, and what it appends to
  \<^verbatim>\<open>fieldErr\<close>. \<open>v\<close> starts as 0 and stays 0 when the scan fails.
\<close>

definition processField :: "ParsingMode \<Rightarrow> gostring \<Rightarrow> 8 word \<times> error list" where
  "processField parsingMode field =
     (let (v, scanErrs) =
            (case Sscanf_d field of
               Inl e \<Rightarrow> (0, if parsingMode = ParsingModeStrict then [errMalformedRow] else [])
             | Inr i \<Rightarrow> (i, []));
          outside = (v < 0 \<or> 255 < v);
          rangeErrs = (if outside \<and> parsingMode = ParsingModeStrict then [errOutOfRange] else []);
          v' = (if outside then clamp v else v)
      in (word_of_int (v' AND 255), scanErrs @ rangeErrs))"

definition parseRow :: "gostring \<Rightarrow> ParsingMode \<Rightarrow> PaletteEntry option \<times> error list" where
  "parseRow line parsingMode =
     (let fs = rowFields line in
      if parsingMode = ParsingModeStrict \<and> length fs < 3 then (None, [errMissingField])
      else
        (let (r, rErr) = (if 1 \<le> length fs then processField parsingMode (fs ! 0) else (0, []));
             (g, gErr) = (if 2 \<le> length fs then processField parsingMode (fs ! 1) else (0, []));
             (b, bErr) = (if 3 \<le> length fs then processField parsingMode (fs ! 2) else (0, []));
             fieldErr = rErr @ gErr @ bErr
         in if fieldErr \<noteq> [] then (None, fieldErr)
            else (Some \<lparr>EntryName = (if 4 \<le> length fs then fs ! 3 else []),
                        Color = \<lparr>R = r, G = g, B = b, A = 255\<rparr>\<rparr>, [])))"

subsection \<open>\<^verbatim>\<open>ReadPalette\<close>\<close>

text \<open>
  What \<^verbatim>\<open>bufio.Scanner\<close> makes of the reader: the lines it yields, and the error
  \<^verbatim>\<open>scanner.Err()\<close> reports once \<^verbatim>\<open>Scan\<close> has returned false (\<open>None\<close> at a clean end of
  input).
\<close>

record reader =
  scanned :: "gostring list"
  failure :: "error option"

text \<open>
  The loop over the remaining lines. It returns the named results \<^verbatim>\<open>comments\<close> and
  \<^verbatim>\<open>entries\<close> when the channel is closed, or the error of the first row that fails,
  together with what is left in the channel at that moment.
\<close>

fun processLines ::
  "ParsingMode \<Rightarrow> gostring list \<Rightarrow> PaletteEntry list \<Rightarrow> chan
     \<Rightarrow> (gostring list \<times> PaletteEntry list) option \<times> error list \<times> chan" where
  "processLines parsingMode comments entries [] = (Some (comments, entries), [], [])"
| "processLines parsingMode comments entries (l # linesCh) =
     (let line = TrimSpace l in
      if line = [] then processLines parsingMode comments entries linesCh
      else if HasPrefix line (str ''#'') then
        processLines parsingMode (comments @ [drop 1 line]) entries linesCh
      else
        (case parseRow line parsingMode of
           (entry, e # es) \<Rightarrow> (None, e # es, linesCh)
         | (Some entry, []) \<Rightarrow> processLines parsingMode comments (entries @ [entry]) linesCh
         | (None, []) \<Rightarrow> (None, [nilDereference], linesCh)))"

text \<open>
  The body of \<^verbatim>\<open>ReadPalette\<close> up to its \<^verbatim>\<open>return\<close>: the named results \<^verbatim>\<open>p\<close> and
  \<^verbatim>\<open>err\<close>, and what is left in \<^verbatim>\<open>linesCh\<close> when it returns.
\<close>

definition expectColumns ::
  "ParsingMode \<Rightarrow> gostring \<Rightarrow> chan \<Rightarrow> Palette option \<times> error list \<times> chan" where
  "expectColumns parsingMode name ch =
     (let finish = (\<lambda>columns linesCh.
            (case processLines parsingMode [] [] linesCh of
               (Some (comments, entries), err, rest) \<Rightarrow>
                 (Some \<lparr>Name = name, Columns = columns, Comments = comments, Entries = entries\<rparr>,
                  err, rest)
             | (None, err, rest) \<Rightarrow> (None, err, rest)))
      in
      (case recv ch of
         ((line, ok), linesCh) \<Rightarrow>
           if \<not> ok \<or> \<not> HasPrefix line (str ''Columns: '') then
             (if parsingMode = ParsingModeStrict then (None, [errMissingColumns], linesCh)
              else finish 0 (putBack line linesCh))
           else
             (case Sscanf_d (TrimSpace (drop (length ''Columns: '') line)) of
                Inl scanErr \<Rightarrow>
                  if parsingMode = ParsingModeStrict then (None, [badColumns scanErr], linesCh)
                  else finish 0 linesCh
              | Inr columns \<Rightarrow> finish columns linesCh)))"

definition expectName :: "ParsingMode \<Rightarrow> chan \<Rightarrow> Palette option \<times> error list \<times> chan" where
  "expectName parsingMode ch =
     (case recv ch of
        ((line, ok), linesCh) \<Rightarrow>
          if \<not> ok \<or> \<not> HasPrefix line (str ''Name: '') then
            (if parsingMode = ParsingModeStrict then (None, [errMissingName], linesCh)
             else expectColumns parsingMode [] (putBack line linesCh))
          else expectColumns parsingMode (TrimSpace (drop (length ''Name:'') line)) linesCh)"

definition expectHeader :: "ParsingMode \<Rightarrow> chan \<Rightarrow> Palette option \<times> error list \<times> chan" where
  "expectHeader parsingMode ch =
     (case recv ch of
        ((line, ok), linesCh) \<Rightarrow>
          if \<not> ok \<or> line \<noteq> magicHeader then (None, [errBadHeader], linesCh)
          else expectName parsingMode linesCh)"

text \<open>
  \<^verbatim>\<open>readLines\<close> (pipeline.go) starts a goroutine that sends every line the scanner yields
  into an unbuffered channel, and then sends \<^verbatim>\<open>scanner.Err()\<close>, if it is not nil, into the
  error channel before it closes both channels. While it waits to send a line it also
  waits for \<^verbatim>\<open>done\<close>: once \<^verbatim>\<open>done\<close> is closed and no one receives, it returns at once,
  without looking at \<^verbatim>\<open>scanner.Err()\<close>. So the error channel holds the scanner's error
  exactly when every line has been received. The model gives the lines as the channel
  they are received from, and the content of the error channel as a function of the lines
  that are still unreceived when \<^verbatim>\<open>done\<close> is closed.
\<close>

definition linesErr :: "reader \<Rightarrow> chan \<Rightarrow> error list" where
  "linesErr r unreceived =
     (if unreceived = [] then (case failure r of None \<Rightarrow> [] | Some e \<Rightarrow> [e]) else [])"

definition readLines :: "reader \<Rightarrow> chan \<times> (chan \<Rightarrow> error list)" where
  "readLines r = (scanned r, linesErr r)"

text \<open>
  \<open>ReadPalette\<close> with its deferred calls, which run after the body in the reverse order of
  their \<^verbatim>\<open>defer\<close>s: \<^verbatim>\<open>close(done)\<close> first, then \<^verbatim>\<open>multierr.AppendInvoke\<close>, which appends
  whatever the error channel of \<^verbatim>\<open>readLines\<close> holds to \<^verbatim>\<open>err\<close>. The result \<^verbatim>\<open>p\<close> is what the
  body left in it. The body returns with lines unreceived only on an error of its own. In
  Lenient mode that is the header check alone, before any \<^verbatim>\<open>putBack\<close>; so the channel left
  by the body is, whenever it is not empty, what the goroutine of \<^verbatim>\<open>readLines\<close> has not
  sent.
\<close>

definition ReadPalette :: "reader \<Rightarrow> ParsingMode \<Rightarrow> Palette option \<times> error list" where
  "ReadPalette r parsingMode =
     (case readLines r of
        (linesCh, linesErrCh) \<Rightarrow>
          (case expectHeader parsingMode linesCh of
             (p, err, rest) \<Rightarrow> (p, err @ linesErrCh rest)))"

section \<open>Notions the properties are stated with\<close>

text \<open>
  The three kinds of body line, as the loop tells them apart after trimming: blank, a
  comment (the trimmed line starts with the marker \<^verbatim>\<open>#\<close>), or an entry row.
\<close>

definition isBlank :: "gostring \<Rightarrow> bool" where
  "isBlank l \<longleftrightarrow> TrimSpace l = []"

definition isComment :: "gostring \<Rightarrow> bool" where
  "isComment l \<longleftrightarrow> HasPrefix (TrimSpace l) (str ''#'')"

definition isRow :: "gostring \<Rightarrow> bool" where
  "isRow l \<longleftrightarrow> \<not> isBlank l \<and> \<not> isComment l"

text \<open>The body of a comment line: the trimmed line without its marker.\<close>

definition commentBody :: "gostring \<Rightarrow> gostring" where
  "commentBody l = drop 1 (TrimSpace l)"

text \<open>
  The lines of a document after its header: a \<^verbatim>\<open>Name: \<close> line is there if the first of
  them has the prefix, a \<^verbatim>\<open>Columns: \<close> line if the first line after the name (or after
  the header, when there is no name line) has the prefix; the body lines are what
  is left when the lines that are there have been taken off.
\<close>

definition hasName :: "gostring list \<Rightarrow> bool" where
  "hasName ls \<longleftrightarrow> ls \<noteq> [] \<and> HasPrefix (hd ls) (str ''Name: '')"

definition afterName :: "gostring list \<Rightarrow> gostring list" where
  "afterName ls = (if hasName ls then tl ls else ls)"

definition hasColumns :: "gostring list \<Rightarrow> bool" where
  "hasColumns ls \<longleftrightarrow> ls \<noteq> [] \<and> HasPrefix (hd ls) (str ''Columns: '')"

definition afterColumns :: "gostring list \<Rightarrow> gostring list" where
  "afterColumns ls = (if hasColumns ls then tl ls else ls)"

definition bodyLines :: "gostring list \<Rightarrow> gostring list" where
  "bodyLines ls = afterColumns (afterName (drop 1 ls))"

text \<open>
  The name and the column count the metadata lines declare: the empty string and 0 where
  the line is not there, 0 also where the text after \<^verbatim>\<open>Columns: \<close> does not scan as an
  integer.
\<close>

definition nameValue :: "gostring list \<Rightarrow> gostring" where
  "nameValue ls = (if hasName ls then TrimSpace (drop (length ''Name:'') (hd ls)) else [])"

definition columnsValue :: "gostring list \<Rightarrow> int" where
  "columnsValue ls =
     (if hasColumns ls then
        (case Sscanf_d (TrimSpace (drop (length ''Columns: '') (hd ls))) of
           Inl e \<Rightarrow> 0
         | Inr v \<Rightarrow> v)
      else 0)"

text \<open>
  The fault of one numeric field, in the words of the specification: malformed if it does
  not scan as an integer, out of range if it scans to a value outside 0..255.
\<close>

definition fieldFaults :: "gostring \<Rightarrow> error list" where
  "fieldFaults field =
     (case Sscanf_d field of
        Inl e \<Rightarrow> [errMalformedRow]
      | Inr v \<Rightarrow> if v < 0 \<or> 255 < v then [errOutOfRange] else [])"

text \<open>The channels of a colour by position: 0 is red, 1 is green, 2 is blue.\<close>

definition channel :: "nat \<Rightarrow> RGBA \<Rightarrow> 8 word" where
  "channel i c = (if i = 0 then R c else if i = 1 then G c else B c)"

text \<open>
  The channel a numeric field gives: 0 if it does not scan as an integer, otherwise the
  scanned value, forced into 0..255.
\<close>

definition channelValue :: "gostring \<Rightarrow> 8 word" where
  "channelValue field =
     (case Sscanf_d field of
        Inl e \<Rightarrow> 0
      | Inr v \<Rightarrow> if v < 0 then 0 else if 255 < v then 255 else word_of_int v)"

section \<open>Documents of the test file\<close>

text \<open>
  Inputs of \<^verbatim>\<open>TestReadPalette\<close>, as the lines the scanner yields for them.
\<close>

definition validPaletteNoName :: "gostring list" where
  "validPaletteNoName = [str ''GIMP Palette'', str ''Columns: 2'', str ''0 127 255'']"

definition validPaletteStrict :: "gostring list" where
  "validPaletteStrict =
     [str ''GIMP Palette'', str ''Name: Valid Palette (Strict)'', str ''Columns: 2'',
      str ''#Comment line 1'', str ''#Comment line 2'', str ''0 127 255 color 1'',
      str ''0 0 0 color2'', str '''', str ''255 255 255'', str ''#Comment line 3'',
      str ''88 88 88 color 4'']"

text \<open>What the test expects of \<^verbatim>\<open>validPaletteStrict\<close>.\<close>

definition validPaletteStrictEntries :: "PaletteEntry list" where
  "validPaletteStrictEntries =
     [\<lparr>EntryName = str ''color 1'', Color = \<lparr>R = 0, G = 127, B = 255, A = 255\<rparr>\<rparr>,
      \<lparr>EntryName = str ''color2'', Color = \<lparr>R = 0, G = 0, B = 0, A = 255\<rparr>\<rparr>,
      \<lparr>EntryName = [], Color = \<lparr>R = 255, G = 255, B = 255, A = 255\<rparr>\<rparr>,
      \<lparr>EntryName = str ''color 4'', Color = \<lparr>R = 88, G = 88, B = 88, A = 255\<rparr>\<rparr>]"

definition validPaletteStrictDecoded :: Palette where
  "validPaletteStrictDecoded =
     \<lparr>Name = str ''Valid Palette (Strict)'', Columns = 2,
      Comments = [str ''Comment line 1'', str ''Comment line 2'', str ''Comment line 3''],
      Entries = validPaletteStrictEntries\<rparr>"

definition validPaletteNoColumns :: "gostring list" where
  "validPaletteNoColumns = [str ''GIMP Palette'', str ''Name: No Columns'', str ''0 127 255'']"

definition validPaletteMalformedColumns :: "gostring list" where
  "validPaletteMalformedColumns =
     [str ''GIMP Palette'', str ''Name: Malformed Columns'', str ''Columns: foobarxxx'',
      str ''0 127 255'']"

text \<open>The scenario the specification closes its list of properties with.\<close>

definition specScenario :: "gostring list" where
  "specScenario = [str ''GIMP Palette'', str ''Name: X'', str ''Columns: 2'', str ''0 127 255 red'']"

section \<open>Evaluating the library functions on literals\<close>

lemma str_simps:
  "str [] = []" "str (c # cs) = of_char c # str cs"
  by (simp_all add: str_def)

lemmas scan_defs =
  Sscanf_d_def scanNumber_def isDigit_def isSign_def decimal_def IsSpace_def str_simps

lemmas fields_defs = rowFields_def splitFn_def IsSpace_def str_simps

lemmas line_defs =
  TrimSpace_def HasPrefix_def IsSpace_def isBlank_def isComment_def isRow_def str_simps

lemma and_255_word: "(word_of_int (v AND 255) :: 8 word) = word_of_int v"
proof -
  have "(255 :: int) = mask 8" by (simp add: mask_eq_exp_minus_1)
  then have "v AND 255 = take_bit 8 v" by (simp add: take_bit_eq_mask)
  then show ?thesis by (simp add: word_of_int_eq_iff)
qed

section \<open>The pushed-back line comes first\<close>

lemma foldl_send: "foldl send acc inCh = acc @ inCh"
  by (induction inCh arbitrary: acc) (simp_all add: send_def)

lemma putBack_Cons: "putBack l s = l # s"
  by (simp add: putBack_def foldl_send send_def)

text \<open>
  Claim C7. For every line \<open>l\<close> and every pending sequence \<open>s\<close>, \<open>putBack l s\<close> is \<open>l\<close>
  followed by the elements of \<open>s\<close> in their order, and any number of nested
  \<open>putBack\<close>s prepends the lines in stack order: the line pushed last is received
  first, and the pending lines follow unchanged.
\<close>

theorem putBack_prepends:
  "putBack l s = l # s \<and> foldr putBack ls s = ls @ s"
proof
  show "putBack l s = l # s"
    by (rule putBack_Cons)
  show "foldr putBack ls s = ls @ s"
    by (induction ls) (simp_all add: putBack_Cons)
qed

section \<open>Rows\<close>

lemma processField_lenient: "processField ParsingModeLenient f = (x, errs) \<Longrightarrow> errs = []"
  by (auto simp add: processField_def Let_def split: sum.splits prod.splits)

lemma parseRow_lenient: "\<exists>e. parseRow line ParsingModeLenient = (Some e, [])"
  by (auto simp add: parseRow_def Let_def split: prod.splits dest: processField_lenient)

text \<open>
  \<^verbatim>\<open>parseRow\<close> returns an entry or an error, never both and never neither, so the
  dereference \<^verbatim>\<open>*entry\<close> in the loop cannot panic.
\<close>

lemma parseRow_shape:
  "(\<exists>e es. parseRow line m = (None, e # es)) \<or> (\<exists>entry. parseRow line m = (Some entry, []))"
  by (auto simp add: parseRow_def Let_def neq_Nil_conv split: prod.splits)

lemma parseRow_A: "parseRow line m = (Some e, errs) \<Longrightarrow> A (Color e) = 255"
  by (auto simp add: parseRow_def Let_def split: prod.splits if_splits)

section \<open>The loop over the body\<close>

lemma processLines_blank:
  "isBlank l \<Longrightarrow> processLines m cs es (l # ch) = processLines m cs es ch"
  by (simp add: isBlank_def)

lemma processLines_comment:
  "isComment l \<Longrightarrow> processLines m cs es (l # ch) = processLines m (cs @ [commentBody l]) es ch"
  by (auto simp add: isComment_def commentBody_def Let_def HasPrefix_def str_simps)

lemma processLines_row_ok:
  "isRow l \<Longrightarrow> parseRow (TrimSpace l) m = (Some e, []) \<Longrightarrow>
   processLines m cs es (l # ch) = processLines m cs (es @ [e]) ch"
  by (simp add: isRow_def isBlank_def isComment_def Let_def)

lemma processLines_row_bad:
  "isRow l \<Longrightarrow> parseRow (TrimSpace l) m = (x, e # errs) \<Longrightarrow>
   processLines m cs es (l # ch) = (None, e # errs, ch)"
  by (simp add: isRow_def isBlank_def isComment_def Let_def split: option.splits)

declare processLines.simps(2) [simp del]

lemma line_kinds: "isBlank l \<or> isComment l \<or> isRow l"
  by (auto simp: isRow_def)

lemma blank_not_comment: "isBlank l \<Longrightarrow> \<not> isComment l"
  by (auto simp: isComment_def isBlank_def HasPrefix_def str_simps)

text \<open>
  When the loop ends without an error it has read the whole channel; the comments are
  the bodies of the comment lines and the entries are what \<^verbatim>\<open>parseRow\<close> gave for the
  rows, both in the order of the lines.
\<close>

lemma processLines_success:
  "processLines m cs es ch = (Some (cs', es'), err, rest) \<Longrightarrow>
     err = [] \<and> rest = [] \<and>
     cs' = cs @ map commentBody (filter isComment ch) \<and>
     (\<exists>new. es' = es @ new \<and>
        map Some new = map (\<lambda>l. fst (parseRow (TrimSpace l) m)) (filter isRow ch)) \<and>
     (\<forall>l \<in> set (filter isRow ch). snd (parseRow (TrimSpace l) m) = [])"
proof (induction ch arbitrary: cs es)
  case Nil
  then show ?case by simp
next
  case (Cons l ch)
  consider (blank) "isBlank l" | (comment) "\<not> isBlank l" "isComment l" | (row) "isRow l"
    using line_kinds by blast
  then show ?case
  proof cases
    case blank
    then have nc: "\<not> isComment l" "\<not> isRow l"
      by (auto simp: blank_not_comment isRow_def)
    from Cons.prems blank have "processLines m cs es ch = (Some (cs', es'), err, rest)"
      by (simp add: processLines_blank)
    from Cons.IH[OF this] nc show ?thesis by simp
  next
    case comment
    then have nr: "\<not> isRow l" by (simp add: isRow_def)
    from Cons.prems comment
    have "processLines m (cs @ [commentBody l]) es ch = (Some (cs', es'), err, rest)"
      by (simp add: processLines_comment)
    from Cons.IH[OF this] comment nr show ?thesis by simp
  next
    case row
    then have nc: "\<not> isComment l" by (simp add: isRow_def)
    from parseRow_shape[of "TrimSpace l" m] show ?thesis
    proof (elim disjE exE)
      fix e errs assume "parseRow (TrimSpace l) m = (None, e # errs)"
      with Cons.prems row show ?thesis by (simp add: processLines_row_bad)
    next
      fix entry assume ok: "parseRow (TrimSpace l) m = (Some entry, [])"
      with Cons.prems row
      have "processLines m cs (es @ [entry]) ch = (Some (cs', es'), err, rest)"
        by (simp add: processLines_row_ok)
      from Cons.IH[OF this] row nc ok show ?thesis by auto
    qed
  qed
qed

lemma processLines_lenient:
  "\<exists>cs' es'. processLines ParsingModeLenient cs es ch = (Some (cs', es'), [], [])"
proof (induction ch arbitrary: cs es)
  case Nil
  then show ?case by simp
next
  case (Cons l ch)
  obtain e where e: "parseRow (TrimSpace l) ParsingModeLenient = (Some e, [])"
    using parseRow_lenient by blast
  consider (blank) "isBlank l" | (comment) "isComment l" | (row) "isRow l"
    using line_kinds by blast
  then show ?case
  proof cases
    case blank
    then show ?thesis using Cons.IH by (simp add: processLines_blank)
  next
    case comment
    then show ?thesis using Cons.IH by (simp add: processLines_comment)
  next
    case row
    then show ?thesis using Cons.IH e by (simp add: processLines_row_ok)
  qed
qed

text \<open>The loop returns at the first row that fails, with the lines after it unread.\<close>

lemma processLines_first_fault:
  "\<forall>l \<in> set pre. isRow l \<longrightarrow> snd (parseRow (TrimSpace l) m) = [] \<Longrightarrow>
   isRow row \<Longrightarrow> parseRow (TrimSpace row) m = (x, e # errs) \<Longrightarrow>
   processLines m cs es (pre @ row # post) = (None, e # errs, post)"
proof (induction pre arbitrary: cs es)
  case Nil
  then show ?case by (simp add: processLines_row_bad)
next
  case (Cons l pre)
  consider (blank) "isBlank l" | (comment) "isComment l" | (row) "isRow l"
    using line_kinds by blast
  then show ?case
  proof cases
    case blank
    then show ?thesis using Cons by (simp add: processLines_blank)
  next
    case comment
    then show ?thesis using Cons by (simp add: processLines_comment)
  next
    case row
    with Cons.prems have "snd (parseRow (TrimSpace l) m) = []" by simp
    with parseRow_shape[of "TrimSpace l" m] obtain entry where
      "parseRow (TrimSpace l) m = (Some entry, [])" by auto
    with row show ?thesis using Cons by (simp add: processLines_row_ok)
  qed
qed

section \<open>The stages before the body\<close>

lemma blank_empty: "isBlank []"
  by (simp add: isBlank_def TrimSpace_def)

text \<open>
  At the end of the input the receive gives the zero value \<^verbatim>\<open>""\<close>, and Lenient mode
  pushes that back: the body loop then sees one blank line more, which it ignores.
\<close>

lemma processLines_pushed_eof: "processLines m cs es [[]] = processLines m cs es []"
  by (simp add: processLines_blank blank_empty)

lemma eof_pushed_columns:
  "afterColumns [[]] = [[]]" "columnsValue [[]] = 0" "afterColumns [] = []" "columnsValue [] = 0"
  by (simp_all add: afterColumns_def columnsValue_def hasColumns_def HasPrefix_def str_simps)

lemma expectColumns_Some:
  "expectColumns m name ch = (Some p, err, rest) \<Longrightarrow>
   \<exists>cs es. processLines m [] [] (afterColumns ch) = (Some (cs, es), err, rest) \<and>
     p = \<lparr>Name = name, Columns = columnsValue ch, Comments = cs, Entries = es\<rparr>"
  by (cases ch)
     (auto simp add: expectColumns_def putBack_Cons afterColumns_def hasColumns_def
        columnsValue_def processLines_pushed_eof
        split: if_splits sum.splits option.splits prod.splits)

lemma expectName_Some:
  assumes "expectName m ch = (Some p, err, rest)"
  shows "\<exists>cs es. processLines m [] [] (afterColumns (afterName ch)) = (Some (cs, es), err, rest) \<and>
     p = \<lparr>Name = nameValue ch, Columns = columnsValue (afterName ch),
          Comments = cs, Entries = es\<rparr>"
proof (cases ch)
  case Nil
  with assms have "expectColumns m [] [[]] = (Some p, err, rest)"
    by (simp add: expectName_def putBack_Cons split: if_splits)
  from expectColumns_Some[OF this] Nil show ?thesis
    by (simp add: eof_pushed_columns processLines_pushed_eof afterName_def hasName_def nameValue_def)
next
  case (Cons l ls)
  show ?thesis
  proof (cases "hasName ch")
    case True
    with assms Cons have "expectColumns m (nameValue ch) ls = (Some p, err, rest)"
      by (simp add: expectName_def hasName_def nameValue_def)
    from expectColumns_Some[OF this] True Cons show ?thesis
      by (simp add: afterName_def)
  next
    case False
    with assms Cons have "expectColumns m [] ch = (Some p, err, rest)"
      by (simp add: expectName_def hasName_def putBack_Cons split: if_splits)
    from expectColumns_Some[OF this] False show ?thesis
      by (simp add: afterName_def nameValue_def)
  qed
qed

lemma expectHeader_Some:
  assumes "expectHeader m ch = (Some p, err, rest)"
  shows "ch \<noteq> [] \<and> hd ch = magicHeader \<and>
    (\<exists>cs es. processLines m [] [] (bodyLines ch) = (Some (cs, es), err, rest) \<and>
     p = \<lparr>Name = nameValue (drop 1 ch), Columns = columnsValue (afterName (drop 1 ch)),
          Comments = cs, Entries = es\<rparr>)"
proof (cases ch)
  case Nil
  with assms show ?thesis by (simp add: expectHeader_def)
next
  case (Cons l ls)
  with assms have l: "l = magicHeader" and "expectName m ls = (Some p, err, rest)"
    by (auto simp add: expectHeader_def split: if_splits)
  from expectName_Some[OF this(2)] l Cons show ?thesis
    by (simp add: bodyLines_def)
qed

lemma expectColumns_lenient:
  "\<exists>p. expectColumns ParsingModeLenient name ch = (Some p, [], [])"
proof -
  have *: "\<exists>cs es. processLines ParsingModeLenient [] [] b = (Some (cs, es), [], [])" for b
    by (rule processLines_lenient)
  show ?thesis
  proof (cases ch)
    case Nil
    with *[of "[[]]"] show ?thesis
      by (auto simp add: expectColumns_def putBack_Cons)
  next
    case (Cons l ls)
    with *[of ls] *[of "l # ls"] show ?thesis
      by (auto simp add: expectColumns_def putBack_Cons split: sum.splits)
  qed
qed

lemma expectName_lenient:
  "\<exists>p. expectName ParsingModeLenient ch = (Some p, [], [])"
  using expectColumns_lenient by (cases ch) (simp_all add: expectName_def)

lemma expectHeader_lenient:
  "\<exists>p. expectHeader ParsingModeLenient (magicHeader # rest) = (Some p, [], [])"
  using expectName_lenient by (simp add: expectHeader_def)

text \<open>What a decode that returns a palette has done.\<close>

lemma ReadPalette_Some:
  assumes "ReadPalette r m = (Some p, errs)"
  shows "\<exists>cs es. processLines m [] [] (bodyLines (scanned r)) = (Some (cs, es), [], []) \<and>
     p = \<lparr>Name = nameValue (drop 1 (scanned r)),
          Columns = columnsValue (afterName (drop 1 (scanned r))),
          Comments = cs, Entries = es\<rparr>"
proof -
  from assms obtain err rest where h: "expectHeader m (scanned r) = (Some p, err, rest)"
    by (auto simp add: ReadPalette_def readLines_def linesErr_def split: prod.splits)
  from expectHeader_Some[OF h] obtain cs es where
    pl: "processLines m [] [] (bodyLines (scanned r)) = (Some (cs, es), err, rest)" and
    p: "p = \<lparr>Name = nameValue (drop 1 (scanned r)),
          Columns = columnsValue (afterName (drop 1 (scanned r))),
          Comments = cs, Entries = es\<rparr>"
    by blast
  from processLines_success[OF pl] have "err = []" "rest = []" by simp_all
  with pl p show ?thesis by blast
qed

section \<open>The test document decodes as the test expects\<close>

lemmas row_defs = parseRow_def fields_defs processField_def scan_defs clamp_def

lemmas stage_defs =
  ReadPalette_def readLines_def linesErr_def expectHeader_def expectName_def expectColumns_def magicHeader_def
  HasPrefix_def TrimSpace_def IsSpace_def putBack_Cons str_simps

lemma validPaletteStrict_rows:
  "parseRow (str ''0 127 255 color 1'') m =
     (Some \<lparr>EntryName = str ''color 1'', Color = \<lparr>R = 0, G = 127, B = 255, A = 255\<rparr>\<rparr>, [])"
  "parseRow (str ''0 0 0 color2'') m =
     (Some \<lparr>EntryName = str ''color2'', Color = \<lparr>R = 0, G = 0, B = 0, A = 255\<rparr>\<rparr>, [])"
  "parseRow (str ''255 255 255'') m =
     (Some \<lparr>EntryName = [], Color = \<lparr>R = 255, G = 255, B = 255, A = 255\<rparr>\<rparr>, [])"
  "parseRow (str ''88 88 88 color 4'') m =
     (Some \<lparr>EntryName = str ''color 4'', Color = \<lparr>R = 88, G = 88, B = 88, A = 255\<rparr>\<rparr>, [])"
  by (simp_all add: row_defs)

lemma validPaletteStrict_body:
  "processLines m [] [] (drop 3 validPaletteStrict) =
     (Some (Comments validPaletteStrictDecoded, validPaletteStrictEntries), [], [])"
  using validPaletteStrict_rows[of m]
  by (simp add: validPaletteStrict_def validPaletteStrictDecoded_def validPaletteStrictEntries_def
        processLines.simps TrimSpace_def HasPrefix_def IsSpace_def str_simps)

lemma scan_2: "Sscanf_d (str ''2'') = Inr 2"
  by (simp add: scan_defs)

lemma validPaletteStrict_decodes:
  "ReadPalette \<lparr>scanned = validPaletteStrict, failure = None\<rparr> m = (Some validPaletteStrictDecoded, [])"
  using validPaletteStrict_body[of m] scan_2
  by (simp add: stage_defs validPaletteStrict_def validPaletteStrictDecoded_def)

text \<open>The scenario of the specification, in Strict mode.\<close>

lemma specScenario_decodes:
  "ReadPalette \<lparr>scanned = specScenario, failure = None\<rparr> ParsingModeStrict =
     (Some \<lparr>Name = str ''X'', Columns = 2, Comments = [],
        Entries = [\<lparr>EntryName = str ''red'', Color = \<lparr>R = 0, G = 127, B = 255, A = 255\<rparr>\<rparr>]\<rparr>, [])"
proof -
  have "parseRow (str ''0 127 255 red'') ParsingModeStrict =
      (Some \<lparr>EntryName = str ''red'', Color = \<lparr>R = 0, G = 127, B = 255, A = 255\<rparr>\<rparr>, [])"
    by (simp add: row_defs)
  then show ?thesis
    using scan_2 by (simp add: stage_defs specScenario_def processLines.simps)
qed

section \<open>The header is required in both modes\<close>

text \<open>
  Claim C2. For every input whose first line is not exactly the magic header
  \<^verbatim>\<open>GIMP Palette\<close>, the input with no line at all included, \<open>ReadPalette\<close> returns no
  palette and an error that is \<open>errBadHeader\<close> (\<^verbatim>\<open>errors.Is\<close> holds of it), in Strict and
  in Lenient mode alike.
\<close>

theorem bad_header_fails:
  "scanned r = [] \<or> hd (scanned r) \<noteq> magicHeader \<Longrightarrow>
   fst (ReadPalette r m) = None \<and> errBadHeader \<in> set (snd (ReadPalette r m))"
  by (cases "scanned r") (simp_all add: ReadPalette_def readLines_def expectHeader_def)

theorem bad_header_fails_witness:
  "hd (scanned \<lparr>scanned = [str ''foobar''], failure = None\<rparr>) \<noteq> magicHeader \<and>
   fst (ReadPalette \<lparr>scanned = [str ''foobar''], failure = None\<rparr> ParsingModeStrict) = None \<and>
   errBadHeader \<in> set (snd (ReadPalette \<lparr>scanned = [str ''foobar''], failure = None\<rparr> ParsingModeStrict)) \<and>
   fst (ReadPalette \<lparr>scanned = [], failure = None\<rparr> ParsingModeLenient) = None \<and>
   errBadHeader \<in> set (snd (ReadPalette \<lparr>scanned = [], failure = None\<rparr> ParsingModeLenient))"
proof -
  have h: "hd (scanned \<lparr>scanned = [str ''foobar''], failure = None\<rparr>) \<noteq> magicHeader"
    by (simp add: magicHeader_def str_simps)
  have "scanned \<lparr>scanned = [str ''foobar''], failure = None\<rparr> = [] \<or>
        hd (scanned \<lparr>scanned = [str ''foobar''], failure = None\<rparr>) \<noteq> magicHeader"
    using h by blast
  from bad_header_fails[OF this, of ParsingModeStrict]
    bad_header_fails[of "\<lparr>scanned = [], failure = None\<rparr>" ParsingModeLenient] h
  show ?thesis by simp
qed

section \<open>Entries and comments keep the order of the file\<close>

text \<open>
  Claim C8. Whenever \<open>ReadPalette\<close> returns a palette, its \<open>Comments\<close> are the bodies of
  the comment lines of the body (the lines that start with \<^verbatim>\<open>#\<close> once trimmed, without
  the marker and otherwise as trimmed), in the order of the file; its \<open>Entries\<close> are
  what \<open>parseRow\<close> made of the rows of the body (the lines that are neither blank nor
  comments), one entry for each row and in the order of the file, every one of these
  rows having been accepted; blank lines leave nothing in either list.
\<close>

theorem entries_and_comments_in_file_order:
  "ReadPalette r m = (Some p, errs) \<Longrightarrow>
     Comments p = map commentBody (filter isComment (bodyLines (scanned r))) \<and>
     map Some (Entries p) =
       map (\<lambda>l. fst (parseRow (TrimSpace l) m)) (filter isRow (bodyLines (scanned r))) \<and>
     (\<forall>l \<in> set (filter isRow (bodyLines (scanned r))). snd (parseRow (TrimSpace l) m) = [])"
proof -
  assume "ReadPalette r m = (Some p, errs)"
  from ReadPalette_Some[OF this] obtain cs es where
    pl: "processLines m [] [] (bodyLines (scanned r)) = (Some (cs, es), [], [])" and
    p: "Comments p = cs" "Entries p = es"
    by auto
  from processLines_success[OF pl] p show ?thesis by auto
qed

theorem entries_and_comments_in_file_order_witness:
  "ReadPalette \<lparr>scanned = validPaletteStrict, failure = None\<rparr> ParsingModeStrict =
     (Some validPaletteStrictDecoded, []) \<and>
   map commentBody (filter isComment (bodyLines validPaletteStrict)) =
     [str ''Comment line 1'', str ''Comment line 2'', str ''Comment line 3''] \<and>
   map (\<lambda>l. fst (parseRow (TrimSpace l) ParsingModeStrict)) (filter isRow (bodyLines validPaletteStrict)) =
     map Some validPaletteStrictEntries \<and>
   length (filter isRow (bodyLines validPaletteStrict)) = 4"
proof -
  have d: "ReadPalette \<lparr>scanned = validPaletteStrict, failure = None\<rparr> ParsingModeStrict =
     (Some validPaletteStrictDecoded, [])"
    by (rule validPaletteStrict_decodes)
  from entries_and_comments_in_file_order[OF d]
  have c: "map commentBody (filter isComment (bodyLines validPaletteStrict)) =
      Comments validPaletteStrictDecoded"
    and e: "map (\<lambda>l. fst (parseRow (TrimSpace l) ParsingModeStrict)) (filter isRow (bodyLines validPaletteStrict)) =
      map Some (Entries validPaletteStrictDecoded)"
    by simp_all
  from e have "length (filter isRow (bodyLines validPaletteStrict)) =
      length (Entries validPaletteStrictDecoded)"
    by (metis length_map)
  with d c e show ?thesis
    by (simp add: validPaletteStrictDecoded_def validPaletteStrictEntries_def)
qed

section \<open>Every entry is opaque\<close>

text \<open>
  Claim C9. Every entry \<open>parseRow\<close> returns has the alpha channel 255, and so has every
  entry of a palette \<open>ReadPalette\<close> returns, in either mode; \<open>parseRow\<close> is the only place
  where an entry is made.
\<close>

theorem alpha_is_full:
  "(parseRow line m = (Some e, errs) \<longrightarrow> A (Color e) = 255) \<and>
   (ReadPalette r m = (Some p, errs') \<longrightarrow> (\<forall>e \<in> set (Entries p). A (Color e) = 255))"
proof (intro conjI impI ballI)
  assume "parseRow line m = (Some e, errs)"
  then show "A (Color e) = 255" by (rule parseRow_A)
next
  fix e assume rp: "ReadPalette r m = (Some p, errs')" and e: "e \<in> set (Entries p)"
  from ReadPalette_Some[OF rp] obtain cs es where
    pl: "processLines m [] [] (bodyLines (scanned r)) = (Some (cs, es), [], [])" and
    p: "Entries p = es"
    by auto
  from processLines_success[OF pl] have
    "map Some es = map (\<lambda>l. fst (parseRow (TrimSpace l) m)) (filter isRow (bodyLines (scanned r)))"
    by simp
  then have "set (map Some es) =
      set (map (\<lambda>l. fst (parseRow (TrimSpace l) m)) (filter isRow (bodyLines (scanned r))))"
    by simp
  with e p obtain l where "fst (parseRow (TrimSpace l) m) = Some e"
    by (metis (no_types, lifting) image_iff list.set_map)
  then have "parseRow (TrimSpace l) m = (Some e, snd (parseRow (TrimSpace l) m))"
    by (metis prod.collapse)
  then show "A (Color e) = 255" by (rule parseRow_A)
qed

theorem alpha_is_full_witness:
  "ReadPalette \<lparr>scanned = validPaletteStrict, failure = None\<rparr> ParsingModeLenient =
     (Some validPaletteStrictDecoded, []) \<and>
   length (Entries validPaletteStrictDecoded) = 4 \<and>
   list_all (\<lambda>e. A (Color e) = 255) (Entries validPaletteStrictDecoded) \<and>
   parseRow (str ''255 255 255'') ParsingModeLenient =
     (Some \<lparr>EntryName = [], Color = \<lparr>R = 255, G = 255, B = 255, A = 255\<rparr>\<rparr>, []) \<and>
   A (Color \<lparr>EntryName = [], Color = \<lparr>R = 255, G = 255, B = 255, A = 255\<rparr>\<rparr>) = 255"
proof -
  have d: "ReadPalette \<lparr>scanned = validPaletteStrict, failure = None\<rparr> ParsingModeLenient =
     (Some validPaletteStrictDecoded, [])"
    by (rule validPaletteStrict_decodes)
  have r: "parseRow (str ''255 255 255'') ParsingModeLenient =
     (Some \<lparr>EntryName = [], Color = \<lparr>R = 255, G = 255, B = 255, A = 255\<rparr>\<rparr>, [])"
    by (rule validPaletteStrict_rows)
  from alpha_is_full[of "str ''255 255 255''" ParsingModeLenient _ "[]"
      "\<lparr>scanned = validPaletteStrict, failure = None\<rparr>" validPaletteStrictDecoded "[]"]
    d r
  have "A (Color \<lparr>EntryName = [], Color = \<lparr>R = 255, G = 255, B = 255, A = 255\<rparr>\<rparr>) = 255"
    and "\<forall>e \<in> set (Entries validPaletteStrictDecoded). A (Color e) = 255"
    by blast+
  then have "list_all (\<lambda>e. A (Color e) = 255) (Entries validPaletteStrictDecoded)"
    by (simp add: list_all_iff)
  with d r show ?thesis
    by (simp add: validPaletteStrictDecoded_def validPaletteStrictEntries_def)
qed

section \<open>What a row gives, field by field\<close>

lemma processField_fst: "fst (processField m f) = channelValue f"
  by (auto simp add: processField_def channelValue_def clamp_def and_255_word Let_def
      split: sum.splits)

lemma processField_strict_snd: "snd (processField ParsingModeStrict f) = fieldFaults f"
  by (auto simp add: processField_def fieldFaults_def Let_def split: sum.splits)

lemma processField_lenient_snd: "snd (processField ParsingModeLenient f) = []"
  by (auto simp add: processField_def Let_def split: sum.splits)

lemma processField_strict: "processField ParsingModeStrict f = (channelValue f, fieldFaults f)"
  by (metis processField_fst processField_strict_snd prod.collapse)

lemma processField_lenient_eq: "processField ParsingModeLenient f = (channelValue f, [])"
  by (metis processField_fst processField_lenient_snd prod.collapse)

lemma take3: "3 \<le> length fs \<Longrightarrow> take 3 fs = [fs ! 0, fs ! 1, fs ! 2]"
  by (cases fs; cases "tl fs"; cases "tl (tl fs)") auto

lemma parseRow_strict_short:
  "length (rowFields line) < 3 \<Longrightarrow> parseRow line ParsingModeStrict = (None, [errMissingField])"
  by (simp add: parseRow_def)

lemma parseRow_strict_long:
  assumes "3 \<le> length (rowFields line)"
  shows "parseRow line ParsingModeStrict =
    (if concat (map fieldFaults (take 3 (rowFields line))) \<noteq> []
     then (None, concat (map fieldFaults (take 3 (rowFields line))))
     else (Some \<lparr>EntryName = (if 4 \<le> length (rowFields line) then rowFields line ! 3 else []),
                 Color = \<lparr>R = channelValue (rowFields line ! 0), G = channelValue (rowFields line ! 1),
                          B = channelValue (rowFields line ! 2), A = 255\<rparr>\<rparr>, []))"
  using assms by (simp add: parseRow_def processField_strict take3 Let_def)

lemma parseRow_lenient_eq:
  "parseRow line ParsingModeLenient =
     (Some \<lparr>EntryName = (if 4 \<le> length (rowFields line) then rowFields line ! 3 else []),
            Color = \<lparr>R = (if 1 \<le> length (rowFields line) then channelValue (rowFields line ! 0) else 0),
                     G = (if 2 \<le> length (rowFields line) then channelValue (rowFields line ! 1) else 0),
                     B = (if 3 \<le> length (rowFields line) then channelValue (rowFields line ! 2) else 0),
                     A = 255\<rparr>\<rparr>, [])"
  by (simp add: parseRow_def processField_lenient_eq Let_def)


section \<open>Strict mode stops at the first faulty row\<close>

text \<open>With a name line and a numeric columns line, the decode is the loop over the rest.\<close>

lemma expectHeader_full:
  assumes "HasPrefix nameLine (str ''Name: '')" "HasPrefix colLine (str ''Columns: '')"
    "Sscanf_d (TrimSpace (drop (length ''Columns: '') colLine)) = Inr c"
  shows "expectHeader m (magicHeader # nameLine # colLine # body) =
    (case processLines m [] [] body of
       (Some (cs, es), err, rest) \<Rightarrow>
         (Some \<lparr>Name = TrimSpace (drop (length ''Name:'') nameLine), Columns = c,
                 Comments = cs, Entries = es\<rparr>, err, rest)
     | (None, err, rest) \<Rightarrow> (None, err, rest))"
  using assms
  by (simp add: expectHeader_def expectName_def expectColumns_def split: prod.splits option.splits)

text \<open>
  Claim C4. In Strict mode, a row with at least three fields of which some numeric field
  is faulty yields one combined error: the faults of its first three fields (malformed,
  or out of range), in the order of the fields, all of them and not only the first. When
  such a row is the first row of the body that fails (after a header, a name line and a
  numeric columns line), \<open>ReadPalette\<close> returns no palette and exactly that combined
  error; the lines after the row are not parsed: they do not occur in the result, except
  that the reader's own error is appended when the row was the last line.
\<close>

theorem strict_row_faults:
  assumes fields: "3 \<le> length (rowFields (TrimSpace row))"
    and row: "isRow row"
    and faults: "concat (map fieldFaults (take 3 (rowFields (TrimSpace row)))) \<noteq> []"
    and name: "HasPrefix nameLine (str ''Name: '')"
    and cols: "HasPrefix colLine (str ''Columns: '')"
      "Sscanf_d (TrimSpace (drop (length ''Columns: '') colLine)) = Inr c"
    and pre: "\<forall>l \<in> set pre. isRow l \<longrightarrow> snd (parseRow (TrimSpace l) ParsingModeStrict) = []"
  shows "parseRow (TrimSpace row) ParsingModeStrict =
           (None, concat (map fieldFaults (take 3 (rowFields (TrimSpace row))))) \<and>
         ReadPalette \<lparr>scanned = magicHeader # nameLine # colLine # pre @ row # post, failure = f\<rparr>
             ParsingModeStrict =
           (None, concat (map fieldFaults (take 3 (rowFields (TrimSpace row)))) @
                  (if post = [] then (case f of None \<Rightarrow> [] | Some e \<Rightarrow> [e]) else []))"
proof -
  let ?faults = "concat (map fieldFaults (take 3 (rowFields (TrimSpace row))))"
  have pr: "parseRow (TrimSpace row) ParsingModeStrict = (None, ?faults)"
    using fields faults by (simp add: parseRow_strict_long)
  from faults obtain e errs where es: "?faults = e # errs"
    by (cases ?faults) auto
  have "processLines ParsingModeStrict [] [] (pre @ row # post) = (None, e # errs, post)"
    using pre row pr es by (intro processLines_first_fault) auto
  then have "expectHeader ParsingModeStrict (magicHeader # nameLine # colLine # pre @ row # post) =
      (None, ?faults, post)"
    using name cols es by (simp add: expectHeader_full)
  then have "ReadPalette \<lparr>scanned = magicHeader # nameLine # colLine # pre @ row # post, failure = f\<rparr>
             ParsingModeStrict = (None, ?faults @ (if post = [] then (case f of None \<Rightarrow> [] | Some e \<Rightarrow> [e]) else []))"
    by (simp add: ReadPalette_def readLines_def linesErr_def)
  with pr show ?thesis by simp
qed

lemma faulty_row_eval:
  "TrimSpace (str ''xx 999 255'') = str ''xx 999 255''"
  "rowFields (str ''xx 999 255'') = [str ''xx'', str ''999'', str ''255'']"
  "fieldFaults (str ''xx'') = [errMalformedRow]"
  "fieldFaults (str ''999'') = [errOutOfRange]"
  "fieldFaults (str ''255'') = []"
  "isRow (str ''xx 999 255'')"
  by (simp_all add: fields_defs fieldFaults_def scan_defs line_defs)

lemma good_row_eval:
  "isRow (str ''0 127 255'')"
  "parseRow (TrimSpace (str ''0 127 255'')) m =
     (Some \<lparr>EntryName = [], Color = \<lparr>R = 0, G = 127, B = 255, A = 255\<rparr>\<rparr>, [])"
  by (simp_all add: line_defs row_defs)

theorem strict_row_faults_witness:
  "3 \<le> length (rowFields (TrimSpace (str ''xx 999 255''))) \<and>
   isRow (str ''xx 999 255'') \<and>
   concat (map fieldFaults (take 3 (rowFields (TrimSpace (str ''xx 999 255''))))) =
     [errMalformedRow, errOutOfRange] \<and>
   HasPrefix (str ''Name: X'') (str ''Name: '') \<and>
   HasPrefix (str ''Columns: 2'') (str ''Columns: '') \<and>
   Sscanf_d (TrimSpace (drop (length ''Columns: '') (str ''Columns: 2''))) = Inr 2 \<and>
   list_all (\<lambda>l. \<not> isRow l \<or> snd (parseRow (TrimSpace l) ParsingModeStrict) = [])
     [str ''0 127 255''] \<and>
   parseRow (TrimSpace (str ''xx 999 255'')) ParsingModeStrict =
     (None, [errMalformedRow, errOutOfRange]) \<and>
   ReadPalette \<lparr>scanned = magicHeader # str ''Name: X'' # str ''Columns: 2'' #
                   [str ''0 127 255''] @ str ''xx 999 255'' # [str ''255'', str ''-1 -1 -1''],
                 failure = None\<rparr> ParsingModeStrict =
     (None, [errMalformedRow, errOutOfRange])"
proof -
  have f: "3 \<le> length (rowFields (TrimSpace (str ''xx 999 255'')))"
    by (simp add: faulty_row_eval)
  have r: "isRow (str ''xx 999 255'')"
    by (rule faulty_row_eval)
  have c: "concat (map fieldFaults (take 3 (rowFields (TrimSpace (str ''xx 999 255''))))) =
      [errMalformedRow, errOutOfRange]"
    by (simp add: faulty_row_eval)
  then have ne: "concat (map fieldFaults (take 3 (rowFields (TrimSpace (str ''xx 999 255''))))) \<noteq> []"
    by simp
  have n: "HasPrefix (str ''Name: X'') (str ''Name: '')"
    and k: "HasPrefix (str ''Columns: 2'') (str ''Columns: '')"
    and v: "Sscanf_d (TrimSpace (drop (length ''Columns: '') (str ''Columns: 2''))) = Inr 2"
    by (simp_all add: HasPrefix_def TrimSpace_def scan_defs)
  have p: "\<forall>l \<in> set [str ''0 127 255'']. isRow l \<longrightarrow> snd (parseRow (TrimSpace l) ParsingModeStrict) = []"
    using good_row_eval(2)[of ParsingModeStrict] by simp
  then have p': "list_all (\<lambda>l. \<not> isRow l \<or> snd (parseRow (TrimSpace l) ParsingModeStrict) = [])
     [str ''0 127 255'']"
    by simp
  from strict_row_faults[OF f r ne n k v p, of "[str ''255'', str ''-1 -1 -1'']" None] c f r n k v p'
  show ?thesis by simp
qed

section \<open>Channels by mode\<close>

lemma less_3_cases: "i < 3 \<Longrightarrow> i = 0 \<or> i = 1 \<or> i = (2::nat)"
  by arith

lemma fieldFaults_in_take3:
  assumes "3 \<le> length fs" "i < 3" "x \<in> set (fieldFaults (fs ! i))"
  shows "x \<in> set (concat (map fieldFaults (take 3 fs)))"
proof -
  have t: "take 3 fs = [fs ! 0, fs ! 1, fs ! 2]"
    using assms(1) by (rule take3)
  from less_3_cases[OF assms(2)] assms(3) show ?thesis
    unfolding t by auto
qed

lemma parseRow_strict_fault:
  assumes "3 \<le> length (rowFields line)" "i < 3" "x \<in> set (fieldFaults (rowFields line ! i))"
  shows "fst (parseRow line ParsingModeStrict) = None \<and> x \<in> set (snd (parseRow line ParsingModeStrict))"
proof -
  from fieldFaults_in_take3[OF assms]
  have in_faults: "x \<in> set (concat (map fieldFaults (take 3 (rowFields line))))" .
  then have "concat (map fieldFaults (take 3 (rowFields line))) \<noteq> []"
    by (metis empty_iff empty_set)
  with in_faults assms(1) show ?thesis by (simp add: parseRow_strict_long)
qed

lemma parseRow_lenient_channel:
  assumes "i < 3" "parseRow line ParsingModeLenient = (Some e, errs)"
  shows "channel i (Color e) =
    (if i < length (rowFields line) then channelValue (rowFields line ! i) else 0)"
proof -
  from assms(2) have c: "Color e =
      \<lparr>R = (if 1 \<le> length (rowFields line) then channelValue (rowFields line ! 0) else 0),
       G = (if 2 \<le> length (rowFields line) then channelValue (rowFields line ! 1) else 0),
       B = (if 3 \<le> length (rowFields line) then channelValue (rowFields line ! 2) else 0),
       A = 255\<rparr>"
    by (auto simp add: parseRow_lenient_eq)
  from less_3_cases[OF assms(1)] show ?thesis
    unfolding c by (auto simp add: channel_def Suc_le_eq)
qed

text \<open>
  Claim C5, as amended. For every entry row: with fewer than three fields, Strict fails
  with \<open>errMissingField\<close> alone, and Lenient gives 0 for each channel whose field is
  missing. With at least three fields, a numeric field that does not scan as an integer
  makes Strict fail with \<open>errMalformedRow\<close>, and one that scans to a value outside 0..255
  makes Strict fail with \<open>errOutOfRange\<close>. Lenient accepts every row; a field that does
  not scan gives the channel 0, a scanned value below 0 gives 0, one above 255 gives 255,
  and a value in range is the channel.
\<close>

theorem row_channels_by_mode:
  "(length (rowFields line) < 3 \<longrightarrow>
      parseRow line ParsingModeStrict = (None, [errMissingField])) \<and>
   (3 \<le> length (rowFields line) \<and> i < 3 \<and> Sscanf_d (rowFields line ! i) = Inl se \<longrightarrow>
      fst (parseRow line ParsingModeStrict) = None \<and>
      errMalformedRow \<in> set (snd (parseRow line ParsingModeStrict))) \<and>
   (3 \<le> length (rowFields line) \<and> i < 3 \<and> Sscanf_d (rowFields line ! i) = Inr v \<and>
      (v < 0 \<or> 255 < v) \<longrightarrow>
      fst (parseRow line ParsingModeStrict) = None \<and>
      errOutOfRange \<in> set (snd (parseRow line ParsingModeStrict))) \<and>
   (\<exists>e. parseRow line ParsingModeLenient = (Some e, []) \<and>
      (i < 3 \<and> length (rowFields line) \<le> i \<longrightarrow> channel i (Color e) = 0) \<and>
      (i < 3 \<and> i < length (rowFields line) \<and> Sscanf_d (rowFields line ! i) = Inl se \<longrightarrow>
         channel i (Color e) = 0) \<and>
      (i < 3 \<and> i < length (rowFields line) \<and> Sscanf_d (rowFields line ! i) = Inr v \<longrightarrow>
         channel i (Color e) = (if v < 0 then 0 else if 255 < v then 255 else word_of_int v)))"
proof (intro conjI)
  show "length (rowFields line) < 3 \<longrightarrow>
      parseRow line ParsingModeStrict = (None, [errMissingField])"
    by (simp add: parseRow_strict_short)
  show "3 \<le> length (rowFields line) \<and> i < 3 \<and> Sscanf_d (rowFields line ! i) = Inl se \<longrightarrow>
      fst (parseRow line ParsingModeStrict) = None \<and>
      errMalformedRow \<in> set (snd (parseRow line ParsingModeStrict))"
    using parseRow_strict_fault[of line i errMalformedRow] by (simp add: fieldFaults_def)
  show "3 \<le> length (rowFields line) \<and> i < 3 \<and> Sscanf_d (rowFields line ! i) = Inr v \<and>
      (v < 0 \<or> 255 < v) \<longrightarrow>
      fst (parseRow line ParsingModeStrict) = None \<and>
      errOutOfRange \<in> set (snd (parseRow line ParsingModeStrict))"
    using parseRow_strict_fault[of line i errOutOfRange] by (auto simp add: fieldFaults_def)
  obtain e where e: "parseRow line ParsingModeLenient = (Some e, [])"
    using parseRow_lenient by blast
  have "i < 3 \<and> length (rowFields line) \<le> i \<longrightarrow> channel i (Color e) = 0"
    using parseRow_lenient_channel[OF _ e, of i] by auto
  moreover have "i < 3 \<and> i < length (rowFields line) \<and> Sscanf_d (rowFields line ! i) = Inl se \<longrightarrow>
         channel i (Color e) = 0"
    using parseRow_lenient_channel[OF _ e, of i] by (auto simp add: channelValue_def)
  moreover have "i < 3 \<and> i < length (rowFields line) \<and> Sscanf_d (rowFields line ! i) = Inr v \<longrightarrow>
         channel i (Color e) = (if v < 0 then 0 else if 255 < v then 255 else word_of_int v)"
    using parseRow_lenient_channel[OF _ e, of i] by (auto simp add: channelValue_def)
  ultimately show "\<exists>e. parseRow line ParsingModeLenient = (Some e, []) \<and>
      (i < 3 \<and> length (rowFields line) \<le> i \<longrightarrow> channel i (Color e) = 0) \<and>
      (i < 3 \<and> i < length (rowFields line) \<and> Sscanf_d (rowFields line ! i) = Inl se \<longrightarrow>
         channel i (Color e) = 0) \<and>
      (i < 3 \<and> i < length (rowFields line) \<and> Sscanf_d (rowFields line ! i) = Inr v \<longrightarrow>
         channel i (Color e) = (if v < 0 then 0 else if 255 < v then 255 else word_of_int v))"
    using e by blast
qed

lemma short_row_eval:
  "rowFields (str ''xx 5'') = [str ''xx'', str ''5'']"
  "Sscanf_d (str ''xx'') = Inl ExpectedInteger"
  "Sscanf_d (str ''5'') = Inr 5"
  by (simp_all add: fields_defs scan_defs)

text \<open>
  Claim C5 as stated, without the restriction to rows of at least three fields, fails on
  the row \<^verbatim>\<open>xx 5\<close>: its first field does not scan, and Strict reports the missing field
  only, since it returns before any field is looked at.
\<close>

theorem malformed_field_in_short_row:
  "rowFields (str ''xx 5'') = [str ''xx'', str ''5''] \<and>
   Sscanf_d (rowFields (str ''xx 5'') ! 0) = Inl ExpectedInteger \<and>
   parseRow (str ''xx 5'') ParsingModeStrict = (None, [errMissingField]) \<and>
   errMalformedRow \<notin> set (snd (parseRow (str ''xx 5'') ParsingModeStrict))"
  by (simp add: short_row_eval parseRow_strict_short)


lemma row_evals:
  "rowFields (str ''255 255'') = [str ''255'', str ''255'']"
  "rowFields (str ''-100 999 255'') = [str ''-100'', str ''999'', str ''255'']"
  "rowFields (str ''xx 127 255'') = [str ''xx'', str ''127'', str ''255'']"
  "Sscanf_d (str ''-100'') = Inr (- 100)"
  "Sscanf_d (str ''999'') = Inr 999"
  "parseRow (str ''255 255'') ParsingModeLenient =
     (Some \<lparr>EntryName = [], Color = \<lparr>R = 255, G = 255, B = 0, A = 255\<rparr>\<rparr>, [])"
  "parseRow (str ''-100 999 255'') ParsingModeLenient =
     (Some \<lparr>EntryName = [], Color = \<lparr>R = 0, G = 255, B = 255, A = 255\<rparr>\<rparr>, [])"
  "parseRow (str ''xx 127 255'') ParsingModeLenient =
     (Some \<lparr>EntryName = [], Color = \<lparr>R = 0, G = 127, B = 255, A = 255\<rparr>\<rparr>, [])"
  by (simp_all add: row_defs)

theorem row_channels_by_mode_witness:
  "length (rowFields (str ''255 255'')) < 3 \<and>
   parseRow (str ''255 255'') ParsingModeStrict = (None, [errMissingField]) \<and>
   parseRow (str ''255 255'') ParsingModeLenient =
     (Some \<lparr>EntryName = [], Color = \<lparr>R = 255, G = 255, B = 0, A = 255\<rparr>\<rparr>, []) \<and>
   3 \<le> length (rowFields (str ''xx 127 255'')) \<and>
   Sscanf_d (rowFields (str ''xx 127 255'') ! 0) = Inl ExpectedInteger \<and>
   fst (parseRow (str ''xx 127 255'') ParsingModeStrict) = None \<and>
   errMalformedRow \<in> set (snd (parseRow (str ''xx 127 255'') ParsingModeStrict)) \<and>
   parseRow (str ''xx 127 255'') ParsingModeLenient =
     (Some \<lparr>EntryName = [], Color = \<lparr>R = 0, G = 127, B = 255, A = 255\<rparr>\<rparr>, []) \<and>
   3 \<le> length (rowFields (str ''-100 999 255'')) \<and>
   Sscanf_d (rowFields (str ''-100 999 255'') ! 1) = Inr 999 \<and>
   fst (parseRow (str ''-100 999 255'') ParsingModeStrict) = None \<and>
   errOutOfRange \<in> set (snd (parseRow (str ''-100 999 255'') ParsingModeStrict)) \<and>
   parseRow (str ''-100 999 255'') ParsingModeLenient =
     (Some \<lparr>EntryName = [], Color = \<lparr>R = 0, G = 255, B = 255, A = 255\<rparr>\<rparr>, []) \<and>
   channel 1 \<lparr>R = 0, G = 255, B = 255, A = 255\<rparr> = 255"
proof -
  have short: "length (rowFields (str ''255 255'')) < 3"
    and xx: "3 \<le> length (rowFields (str ''xx 127 255''))"
      "Sscanf_d (rowFields (str ''xx 127 255'') ! 0) = Inl ExpectedInteger"
    and big: "3 \<le> length (rowFields (str ''-100 999 255''))"
      "Sscanf_d (rowFields (str ''-100 999 255'') ! 1) = Inr 999"
    by (simp_all add: row_evals short_row_eval)
  from row_channels_by_mode[of "str ''255 255''" 2 ExpectedInteger 0] short
  have a: "parseRow (str ''255 255'') ParsingModeStrict = (None, [errMissingField])"
    by blast
  from row_channels_by_mode[of "str ''xx 127 255''" 0 ExpectedInteger 0] xx
  have b: "fst (parseRow (str ''xx 127 255'') ParsingModeStrict) = None \<and>
      errMalformedRow \<in> set (snd (parseRow (str ''xx 127 255'') ParsingModeStrict))"
    by simp
  from row_channels_by_mode[of "str ''-100 999 255''" 1 ExpectedInteger 999] big
  have c: "fst (parseRow (str ''-100 999 255'') ParsingModeStrict) = None \<and>
      errOutOfRange \<in> set (snd (parseRow (str ''-100 999 255'') ParsingModeStrict))"
    and "\<exists>e. parseRow (str ''-100 999 255'') ParsingModeLenient = (Some e, []) \<and>
      channel 1 (Color e) = 255"
    by simp_all
  then have d: "channel 1 \<lparr>R = 0, G = 255, B = 255, A = 255\<rparr> = 255"
    by (simp add: row_evals)
  from short xx big a b c d show ?thesis
    by (simp add: row_evals)
qed

section \<open>A field that starts with an integer\<close>

lemma digit_facts:
  "isDigit d \<Longrightarrow> \<not> IsSpace d" "isDigit d \<Longrightarrow> \<not> isSign d" "isDigit d \<Longrightarrow> d \<noteq> 10"
  by (auto simp add: isDigit_def IsSpace_def isSign_def)

lemma takeWhile_digits:
  "\<forall>d \<in> set ds. isDigit d \<Longrightarrow> rest = [] \<or> \<not> isDigit (hd rest) \<Longrightarrow>
   takeWhile isDigit (ds @ rest) = ds"
  by (cases rest) (auto simp add: takeWhile_append2)

lemma scanNumber_leading:
  assumes "ds \<noteq> []" "\<forall>d \<in> set ds. isDigit d" "rest = [] \<or> \<not> isDigit (hd rest)"
    and "v = (if neg then - decimal ds else decimal ds)" "- (2 ^ 63) \<le> v" "v \<le> 2 ^ 63 - 1"
  shows "scanNumber neg (ds @ rest) = Inr v"
proof -
  from assms(1) obtain d ds' where ds: "ds = d # ds'" by (cases ds) auto
  with assms(2) have d: "isDigit d" by simp
  have tw: "takeWhile isDigit (ds @ rest) = ds"
    using assms(2,3) by (rule takeWhile_digits)
  show ?thesis
    using tw d assms(4-6) unfolding scanNumber_def ds by (auto simp add: Let_def)
qed

lemma Sscanf_d_leading:
  assumes "ds \<noteq> []" "\<forall>d \<in> set ds. isDigit d" "rest = [] \<or> \<not> isDigit (hd rest)"
    and "sg = [] \<or> sg = str ''+'' \<or> sg = str ''-''"
    and "v = (if sg = str ''-'' then - decimal ds else decimal ds)"
      "- (2 ^ 63) \<le> v" "v \<le> 2 ^ 63 - 1"
  shows "Sscanf_d (sg @ ds @ rest) = Inr v"
proof -
  from assms(1) obtain d ds' where ds: "ds = d # ds'" by (cases ds) auto
  with assms(2) have d: "isDigit d" by simp
  from assms(4) consider (none) "sg = []" | (plus) "sg = str ''+''" | (minus) "sg = str ''-''"
    by blast
  then show ?thesis
  proof cases
    case none
    with assms(5) have v: "v = (if False then - decimal ds else decimal ds)"
      by (simp add: str_simps)
    have "Sscanf_d (ds @ rest) = scanNumber False (ds @ rest)"
      using d by (simp add: Sscanf_d_def ds digit_facts)
    with scanNumber_leading[OF assms(1-3) v assms(6,7)] none show ?thesis by simp
  next
    case plus
    with assms(5) have v: "v = (if False then - decimal ds else decimal ds)"
      by (simp add: str_simps)
    have "Sscanf_d (sg @ ds @ rest) = scanNumber False (ds @ rest)"
      using plus by (simp add: Sscanf_d_def str_simps IsSpace_def isSign_def)
    with scanNumber_leading[OF assms(1-3) v assms(6,7)] show ?thesis by simp
  next
    case minus
    with assms(5) have v: "v = (if True then - decimal ds else decimal ds)"
      by simp
    have "Sscanf_d (sg @ ds @ rest) = scanNumber True (ds @ rest)"
      using minus by (simp add: Sscanf_d_def str_simps IsSpace_def isSign_def)
    with scanNumber_leading[OF assms(1-3) v assms(6,7)] show ?thesis by simp
  qed
qed

lemma leading_eval:
  "rowFields (str ''12abc 0 0'') = [str ''12abc'', str ''0'', str ''0'']"
  "fieldFaults (str ''0'') = []"
  "decimal (str ''12'') = 12"
  "isDigit (of_char CHR ''1'')" "isDigit (of_char CHR ''2'')"
  "\<not> isDigit (hd (str ''abc''))"
  by (simp_all add: fields_defs fieldFaults_def scan_defs)

text \<open>
  Claim C10. A channel field that starts with a decimal integer (an optional sign and
  digits, with a value that fits the 64 bits of an \<^verbatim>\<open>int\<close>) and goes on with anything that
  is not a digit, such as \<^verbatim>\<open>12abc\<close>, scans as that integer: in both modes \<open>processField\<close>
  reports no \<open>errMalformedRow\<close> for it and gives the integer as the channel, with the
  usual range handling (out of range is \<open>errOutOfRange\<close> in Strict and clamped in
  Lenient). So a Lenient row has that channel, and a Strict row whose other numeric
  fields are faultless is accepted with that channel when the integer is in range.
\<close>

theorem leading_integer_is_used:
  assumes "ds \<noteq> []" "\<forall>d \<in> set ds. isDigit d" "rest = [] \<or> \<not> isDigit (hd rest)"
    and "sg = [] \<or> sg = str ''+'' \<or> sg = str ''-''"
    and "v = (if sg = str ''-'' then - decimal ds else decimal ds)"
      "- (2 ^ 63) \<le> v" "v \<le> 2 ^ 63 - 1"
  shows "Sscanf_d (sg @ ds @ rest) = Inr v \<and>
    processField m (sg @ ds @ rest) =
      (if v < 0 then 0 else if 255 < v then 255 else word_of_int v,
       if m = ParsingModeStrict \<and> (v < 0 \<or> 255 < v) then [errOutOfRange] else []) \<and>
    errMalformedRow \<notin> set (snd (processField m (sg @ ds @ rest))) \<and>
    (i < 3 \<and> i < length (rowFields line) \<and> rowFields line ! i = sg @ ds @ rest \<longrightarrow>
       (\<exists>e. parseRow line ParsingModeLenient = (Some e, []) \<and>
          channel i (Color e) = (if v < 0 then 0 else if 255 < v then 255 else word_of_int v))) \<and>
    (i < 3 \<and> 3 \<le> length (rowFields line) \<and> rowFields line ! i = sg @ ds @ rest \<and>
       0 \<le> v \<and> v \<le> 255 \<and> (\<forall>j < 3. j \<noteq> i \<longrightarrow> fieldFaults (rowFields line ! j) = []) \<longrightarrow>
       (\<exists>e. parseRow line ParsingModeStrict = (Some e, []) \<and>
          channel i (Color e) = word_of_int v))"
proof -
  let ?f = "sg @ ds @ rest"
  let ?c = "if v < 0 then 0 else if 255 < v then 255 else (word_of_int v :: 8 word)"
  have scan: "Sscanf_d ?f = Inr v"
    using assms by (rule Sscanf_d_leading)
  then have cv: "channelValue ?f = ?c" and ff: "fieldFaults ?f = (if v < 0 \<or> 255 < v then [errOutOfRange] else [])"
    by (simp_all add: channelValue_def fieldFaults_def)
  have pf: "processField m ?f =
      (?c, if m = ParsingModeStrict \<and> (v < 0 \<or> 255 < v) then [errOutOfRange] else [])"
    using cv ff by (cases m) (simp_all add: processField_strict processField_lenient_eq)
  then have nm: "errMalformedRow \<notin> set (snd (processField m ?f))"
    by simp
  have len: "i < 3 \<and> i < length (rowFields line) \<and> rowFields line ! i = ?f \<longrightarrow>
       (\<exists>e. parseRow line ParsingModeLenient = (Some e, []) \<and> channel i (Color e) = ?c)"
  proof
    assume h: "i < 3 \<and> i < length (rowFields line) \<and> rowFields line ! i = ?f"
    obtain e where e: "parseRow line ParsingModeLenient = (Some e, [])"
      using parseRow_lenient by blast
    from h have "i < 3" by simp
    from parseRow_lenient_channel[OF this e] h cv have "channel i (Color e) = ?c" by simp
    with e show "\<exists>e. parseRow line ParsingModeLenient = (Some e, []) \<and> channel i (Color e) = ?c"
      by blast
  qed
  have str: "i < 3 \<and> 3 \<le> length (rowFields line) \<and> rowFields line ! i = ?f \<and>
       0 \<le> v \<and> v \<le> 255 \<and> (\<forall>j < 3. j \<noteq> i \<longrightarrow> fieldFaults (rowFields line ! j) = []) \<longrightarrow>
       (\<exists>e. parseRow line ParsingModeStrict = (Some e, []) \<and> channel i (Color e) = word_of_int v)"
  proof
    assume h: "i < 3 \<and> 3 \<le> length (rowFields line) \<and> rowFields line ! i = ?f \<and>
       0 \<le> v \<and> v \<le> 255 \<and> (\<forall>j < 3. j \<noteq> i \<longrightarrow> fieldFaults (rowFields line ! j) = [])"
    then have three: "3 \<le> length (rowFields line)" and i: "i < 3" by simp_all
    from h ff have fi: "fieldFaults (rowFields line ! i) = []" by simp
    with h have all: "fieldFaults (rowFields line ! j) = []" if "j < 3" for j
      using that by (cases "j = i") auto
    have "concat (map fieldFaults (take 3 (rowFields line))) = []"
      using all[of 0] all[of 1] all[of 2] by (simp add: take3[OF three])
    with three have pr: "parseRow line ParsingModeStrict =
      (Some \<lparr>EntryName = (if 4 \<le> length (rowFields line) then rowFields line ! 3 else []),
                 Color = \<lparr>R = channelValue (rowFields line ! 0), G = channelValue (rowFields line ! 1),
                          B = channelValue (rowFields line ! 2), A = 255\<rparr>\<rparr>, [])"
      by (simp add: parseRow_strict_long)
    from h cv have "channelValue (rowFields line ! i) = word_of_int v" by simp
    with less_3_cases[OF i] have "channel i \<lparr>R = channelValue (rowFields line ! 0), G = channelValue (rowFields line ! 1),
                          B = channelValue (rowFields line ! 2), A = 255\<rparr> = word_of_int v"
      by (auto simp add: channel_def)
    with pr show "\<exists>e. parseRow line ParsingModeStrict = (Some e, []) \<and> channel i (Color e) = word_of_int v"
      by simp
  qed
  from scan pf nm len str show ?thesis by blast
qed

theorem leading_integer_is_used_witness:
  "str ''12'' \<noteq> [] \<and> list_all isDigit (str ''12'') \<and> \<not> isDigit (hd (str ''abc'')) \<and>
   decimal (str ''12'') = 12 \<and>
   rowFields (str ''12abc 0 0'') ! 0 = [] @ str ''12'' @ str ''abc'' \<and>
   Sscanf_d (str ''12abc'') = Inr 12 \<and>
   processField ParsingModeStrict (str ''12abc'') = (12, []) \<and>
   processField ParsingModeLenient (str ''12abc'') = (12, []) \<and>
   parseRow (str ''12abc 0 0'') ParsingModeStrict =
     (Some \<lparr>EntryName = [], Color = \<lparr>R = 12, G = 0, B = 0, A = 255\<rparr>\<rparr>, []) \<and>
   parseRow (str ''12abc 0 0'') ParsingModeLenient =
     (Some \<lparr>EntryName = [], Color = \<lparr>R = 12, G = 0, B = 0, A = 255\<rparr>\<rparr>, []) \<and>
   (\<exists>e. parseRow (str ''12abc 0 0'') ParsingModeStrict = (Some e, []) \<and>
      channel 0 (Color e) = word_of_int 12) \<and>
   (\<exists>e. parseRow (str ''12abc 0 0'') ParsingModeLenient = (Some e, []) \<and>
      channel 0 (Color e) = 12)"
proof -
  have a: "str ''12'' \<noteq> []" "\<forall>d \<in> set (str ''12''). isDigit d"
    "str ''abc'' = [] \<or> \<not> isDigit (hd (str ''abc''))"
    "([] :: gostring) = [] \<or> [] = str ''+'' \<or> [] = str ''-''"
    "(12 :: int) = (if [] = str ''-'' then - decimal (str ''12'') else decimal (str ''12''))"
    "- (2 ^ 63) \<le> (12 :: int)" "(12 :: int) \<le> 2 ^ 63 - 1"
    by (simp_all add: scan_defs)
  have f: "[] @ str ''12'' @ str ''abc'' = str ''12abc''"
    by (simp add: str_simps)
  note t = leading_integer_is_used[OF a, of _ 0 "str ''12abc 0 0''", unfolded f]
  from t[of ParsingModeStrict] have s: "Sscanf_d (str ''12abc'') = Inr 12"
    and ps: "processField ParsingModeStrict (str ''12abc'') = (12, [])"
    by simp_all
  from t[of ParsingModeLenient] have pl: "processField ParsingModeLenient (str ''12abc'') = (12, [])"
    by simp
  have rows: "parseRow (str ''12abc 0 0'') m =
     (Some \<lparr>EntryName = [], Color = \<lparr>R = 12, G = 0, B = 0, A = 255\<rparr>\<rparr>, [])" for m
    by (simp add: row_defs)
  have g: "rowFields (str ''12abc 0 0'') ! 0 = [] @ str ''12'' @ str ''abc''"
    by (simp add: fields_defs)
  have "list_all isDigit (str ''12'')" "\<not> isDigit (hd (str ''abc''))" "decimal (str ''12'') = 12"
    by (simp_all add: scan_defs)
  moreover have others: "\<forall>j < 3. j \<noteq> 0 \<longrightarrow> fieldFaults (rowFields (str ''12abc 0 0'') ! j) = []"
  proof (intro allI impI)
    fix j :: nat assume "j < 3" "j \<noteq> 0"
    with less_3_cases[of j] have "j = 1 \<or> j = 2" by blast
    then show "fieldFaults (rowFields (str ''12abc 0 0'') ! j) = []"
      by (auto simp add: leading_eval)
  qed
  have "\<exists>e. parseRow (str ''12abc 0 0'') ParsingModeStrict = (Some e, []) \<and>
      channel 0 (Color e) = word_of_int 12"
    using t[of ParsingModeStrict] others by (simp add: leading_eval)
  moreover have "\<exists>e. parseRow (str ''12abc 0 0'') ParsingModeLenient = (Some e, []) \<and>
      channel 0 (Color e) = 12"
    using t[of ParsingModeLenient] by (simp add: leading_eval)
  ultimately show ?thesis
    using a(1) g s ps pl rows by blast
qed

section \<open>Lenient mode and missing metadata\<close>

lemma ReadPalette_lenient:
  assumes "scanned r = magicHeader # rest"
  shows "\<exists>p. ReadPalette r ParsingModeLenient =
           (Some p, (case failure r of None \<Rightarrow> [] | Some e \<Rightarrow> [e])) \<and>
         Name p = nameValue rest \<and> Columns p = columnsValue (afterName rest) \<and>
         Comments p = map commentBody (filter isComment (afterColumns (afterName rest))) \<and>
         map Some (Entries p) =
           map (\<lambda>l. fst (parseRow (TrimSpace l) ParsingModeLenient))
             (filter isRow (afterColumns (afterName rest)))"
proof -
  from expectHeader_lenient[of rest] obtain p where
    h: "expectHeader ParsingModeLenient (magicHeader # rest) = (Some p, [], [])" by blast
  then have rp: "ReadPalette r ParsingModeLenient =
      (Some p, (case failure r of None \<Rightarrow> [] | Some e \<Rightarrow> [e]))"
    using assms by (simp add: ReadPalette_def readLines_def linesErr_def)
  from expectHeader_Some[OF h] obtain cs es where
    pl: "processLines ParsingModeLenient [] [] (bodyLines (magicHeader # rest)) = (Some (cs, es), [], [])"
    and p: "p = \<lparr>Name = nameValue rest, Columns = columnsValue (afterName rest),
          Comments = cs, Entries = es\<rparr>"
    by auto
  from processLines_success[OF pl] p rp show ?thesis
    by (auto simp add: bodyLines_def)
qed

lemma noName_eval:
  "\<not> hasName (tl validPaletteNoName)"
  "hd (tl validPaletteNoName) = str ''Columns: 2''"
  "hasColumns (afterName (tl validPaletteNoName))"
  "afterColumns (afterName (tl validPaletteNoName)) = [str ''0 127 255'']"
  "validPaletteNoName = magicHeader # tl validPaletteNoName"
  by (simp_all add: validPaletteNoName_def hasName_def hasColumns_def afterName_def
        afterColumns_def HasPrefix_def magicHeader_def str_simps)

lemma columns_as_row:
  "parseRow (TrimSpace (str ''Columns: 2'')) ParsingModeLenient =
     (Some \<lparr>EntryName = [], Color = \<lparr>R = 0, G = 2, B = 0, A = 255\<rparr>\<rparr>, [])"
  "isRow (str ''Columns: 2'')"
  by (simp_all add: row_defs line_defs)

lemma noName_decodes:
  "ReadPalette \<lparr>scanned = validPaletteNoName, failure = None\<rparr> ParsingModeLenient =
     (Some \<lparr>Name = [], Columns = 2, Comments = [],
        Entries = [\<lparr>EntryName = [], Color = \<lparr>R = 0, G = 127, B = 255, A = 255\<rparr>\<rparr>]\<rparr>, [])"
  using good_row_eval(1) good_row_eval(2)[of ParsingModeLenient] scan_2
  by (simp add: stage_defs validPaletteNoName_def processLines.simps processLines_row_ok)

lemma noColumns_eval:
  "hasName (tl validPaletteNoColumns)"
  "\<not> hasColumns (afterName (tl validPaletteNoColumns))"
  "afterName (tl validPaletteNoColumns) = [str ''0 127 255'']"
  "validPaletteNoColumns = magicHeader # tl validPaletteNoColumns"
  by (simp_all add: validPaletteNoColumns_def hasName_def hasColumns_def afterName_def
        afterColumns_def HasPrefix_def magicHeader_def str_simps)

lemma malformedColumns_eval:
  "hasColumns (afterName (tl validPaletteMalformedColumns))"
  "hd (afterName (tl validPaletteMalformedColumns)) = str ''Columns: foobarxxx''"
  "Sscanf_d (TrimSpace (drop (length ''Columns: '') (str ''Columns: foobarxxx''))) = Inl ExpectedInteger"
  "validPaletteMalformedColumns = magicHeader # tl validPaletteMalformedColumns"
  by (simp_all add: validPaletteMalformedColumns_def hasName_def hasColumns_def afterName_def
        afterColumns_def HasPrefix_def magicHeader_def TrimSpace_def scan_defs)

lemma noColumns_decodes:
  "ReadPalette \<lparr>scanned = validPaletteNoColumns, failure = None\<rparr> ParsingModeLenient =
     (Some \<lparr>Name = str ''No Columns'', Columns = 0, Comments = [],
        Entries = [\<lparr>EntryName = [], Color = \<lparr>R = 0, G = 127, B = 255, A = 255\<rparr>\<rparr>]\<rparr>, [])"
  using good_row_eval(1) good_row_eval(2)[of ParsingModeLenient]
  by (simp add: stage_defs validPaletteNoColumns_def processLines.simps processLines_row_ok)

lemma malformedColumns_decodes:
  "ReadPalette \<lparr>scanned = validPaletteMalformedColumns, failure = None\<rparr> ParsingModeLenient =
     (Some \<lparr>Name = str ''Malformed Columns'', Columns = 0, Comments = [],
        Entries = [\<lparr>EntryName = [], Color = \<lparr>R = 0, G = 127, B = 255, A = 255\<rparr>\<rparr>]\<rparr>, [])"
  using good_row_eval(1) good_row_eval(2)[of ParsingModeLenient] malformedColumns_eval(3)
  by (simp add: stage_defs validPaletteMalformedColumns_def processLines.simps processLines_row_ok)

text \<open>
  Claim C3, as amended. For every input whose first line is the magic header, read from a
  reader that does not fail, Lenient \<open>ReadPalette\<close> returns a palette and no error,
  whatever follows the header. Where the line after the header is not a \<^verbatim>\<open>Name: \<close> line,
  \<open>Name\<close> is empty and that line stays in the input; where the line then expected to be
  the \<^verbatim>\<open>Columns: \<close> line is not one, \<open>Columns\<close> is 0 and that line stays in the input;
  where it is one but its value does not scan, \<open>Columns\<close> is 0. A line that stays is read
  again by the stage that follows: a line left by the name stage is the candidate
  for the columns line, and the comments and entries are those of all the lines left
  after the columns stage.
\<close>

theorem lenient_tolerates_missing_metadata:
  assumes "scanned r = magicHeader # rest" "failure r = None"
  shows "\<exists>p. ReadPalette r ParsingModeLenient = (Some p, []) \<and>
     (\<not> hasName rest \<longrightarrow> Name p = [] \<and> afterName rest = rest) \<and>
     (\<not> hasColumns (afterName rest) \<longrightarrow>
        Columns p = 0 \<and> afterColumns (afterName rest) = afterName rest) \<and>
     (hasColumns (afterName rest) \<and>
      Sscanf_d (TrimSpace (drop (length ''Columns: '') (hd (afterName rest)))) = Inl se \<longrightarrow>
        Columns p = 0) \<and>
     Comments p = map commentBody (filter isComment (afterColumns (afterName rest))) \<and>
     map Some (Entries p) =
       map (\<lambda>l. fst (parseRow (TrimSpace l) ParsingModeLenient))
         (filter isRow (afterColumns (afterName rest)))"
proof -
  from ReadPalette_lenient[OF assms(1)] assms(2) obtain p where
    rp: "ReadPalette r ParsingModeLenient = (Some p, [])" and
    n: "Name p = nameValue rest" and c: "Columns p = columnsValue (afterName rest)" and
    cs: "Comments p = map commentBody (filter isComment (afterColumns (afterName rest)))" and
    es: "map Some (Entries p) =
       map (\<lambda>l. fst (parseRow (TrimSpace l) ParsingModeLenient))
         (filter isRow (afterColumns (afterName rest)))"
    by auto
  have "\<not> hasName rest \<longrightarrow> Name p = [] \<and> afterName rest = rest"
    using n by (simp add: nameValue_def afterName_def)
  moreover have "\<not> hasColumns (afterName rest) \<longrightarrow>
        Columns p = 0 \<and> afterColumns (afterName rest) = afterName rest"
    using c by (simp add: columnsValue_def afterColumns_def)
  moreover have "hasColumns (afterName rest) \<and>
      Sscanf_d (TrimSpace (drop (length ''Columns: '') (hd (afterName rest)))) = Inl se \<longrightarrow>
        Columns p = 0"
    using c by (simp add: columnsValue_def)
  ultimately show ?thesis using rp cs es by blast
qed

theorem lenient_tolerates_missing_metadata_witness:
  "\<not> hasName (tl validPaletteNoName) \<and>
   (\<exists>p. ReadPalette \<lparr>scanned = validPaletteNoName, failure = None\<rparr> ParsingModeLenient = (Some p, []) \<and>
      Name p = [] \<and> Columns p = 2 \<and> length (Entries p) = 1) \<and>
   \<not> hasColumns (afterName (tl validPaletteNoColumns)) \<and>
   afterName (tl validPaletteNoColumns) = [str ''0 127 255''] \<and>
   (\<exists>p. ReadPalette \<lparr>scanned = validPaletteNoColumns, failure = None\<rparr> ParsingModeLenient = (Some p, []) \<and>
      Columns p = 0 \<and>
      Entries p = [\<lparr>EntryName = [], Color = \<lparr>R = 0, G = 127, B = 255, A = 255\<rparr>\<rparr>]) \<and>
   hasColumns (afterName (tl validPaletteMalformedColumns)) \<and>
   Sscanf_d (TrimSpace (drop (length ''Columns: '') (hd (afterName (tl validPaletteMalformedColumns))))) =
     Inl ExpectedInteger \<and>
   (\<exists>p. ReadPalette \<lparr>scanned = validPaletteMalformedColumns, failure = None\<rparr> ParsingModeLenient = (Some p, []) \<and>
      Columns p = 0)"
proof -
  have s: "scanned \<lparr>scanned = ls, failure = None\<rparr> = magicHeader # tl ls"
    if "ls = magicHeader # tl ls" for ls
    using that by simp
  have f: "failure \<lparr>scanned = ls, failure = None\<rparr> = None" for ls :: "gostring list"
    by simp
  from lenient_tolerates_missing_metadata[OF s[OF noName_eval(5)] f, of ExpectedInteger]
    noName_eval(1) noName_decodes
  have a: "\<exists>p. ReadPalette \<lparr>scanned = validPaletteNoName, failure = None\<rparr> ParsingModeLenient = (Some p, []) \<and>
      Name p = [] \<and> Columns p = 2 \<and> length (Entries p) = 1"
    by auto
  from lenient_tolerates_missing_metadata[OF s[OF noColumns_eval(4)] f, of ExpectedInteger]
    noColumns_eval(2) noColumns_decodes
  have b: "\<exists>p. ReadPalette \<lparr>scanned = validPaletteNoColumns, failure = None\<rparr> ParsingModeLenient = (Some p, []) \<and>
      Columns p = 0 \<and>
      Entries p = [\<lparr>EntryName = [], Color = \<lparr>R = 0, G = 127, B = 255, A = 255\<rparr>\<rparr>]"
    by auto
  have m: "Sscanf_d (TrimSpace (drop (length ''Columns: '') (hd (afterName (tl validPaletteMalformedColumns))))) =
     Inl ExpectedInteger"
    using malformedColumns_eval(3) by (simp only: malformedColumns_eval(2))
  from lenient_tolerates_missing_metadata[OF s[OF malformedColumns_eval(4)] f, of ExpectedInteger]
    malformedColumns_eval(1) m
  have c: "\<exists>p. ReadPalette \<lparr>scanned = validPaletteMalformedColumns, failure = None\<rparr> ParsingModeLenient = (Some p, []) \<and>
      Columns p = 0"
    by auto
  from a b c m noName_eval(1) noColumns_eval(2,3) malformedColumns_eval(1) show ?thesis
    by blast
qed

text \<open>
  Claim C3 as stated has the skipped line reprocessed as body content. In the test
  document without a name, the line skipped by the name stage is \<^verbatim>\<open>Columns: 2\<close>: it is
  read again as the columns line (\<open>Columns\<close> is 2 and there is one entry), whereas the body
  loop run on it would have made an entry of it.
\<close>

theorem skipped_line_read_as_columns:
  "\<not> hasName (tl validPaletteNoName) \<and>
   hd (tl validPaletteNoName) = str ''Columns: 2'' \<and>
   ReadPalette \<lparr>scanned = validPaletteNoName, failure = None\<rparr> ParsingModeLenient =
     (Some \<lparr>Name = [], Columns = 2, Comments = [],
        Entries = [\<lparr>EntryName = [], Color = \<lparr>R = 0, G = 127, B = 255, A = 255\<rparr>\<rparr>]\<rparr>, []) \<and>
   processLines ParsingModeLenient [] [] (tl validPaletteNoName) =
     (Some ([], [\<lparr>EntryName = [], Color = \<lparr>R = 0, G = 2, B = 0, A = 255\<rparr>\<rparr>,
                 \<lparr>EntryName = [], Color = \<lparr>R = 0, G = 127, B = 255, A = 255\<rparr>\<rparr>]), [], [])"
proof -
  have "processLines ParsingModeLenient [] [] (tl validPaletteNoName) =
     (Some ([], [\<lparr>EntryName = [], Color = \<lparr>R = 0, G = 2, B = 0, A = 255\<rparr>\<rparr>,
                 \<lparr>EntryName = [], Color = \<lparr>R = 0, G = 127, B = 255, A = 255\<rparr>\<rparr>]), [], [])"
    using good_row_eval(1) good_row_eval(2)[of ParsingModeLenient] columns_as_row
    by (simp add: validPaletteNoName_def processLines_row_ok)
  with noName_eval(1,2) noName_decodes show ?thesis by blast
qed

section \<open>The reader's error\<close>

text \<open>
  Up to its \<^verbatim>\<open>return\<close>, the body of \<open>ReadPalette\<close> has a palette exactly when it has no
  error, and it leaves lines unread only when it has an error.
\<close>

lemma processLines_result:
  "processLines m cs es ch = (x, err, rest) \<Longrightarrow>
   (x = None \<longleftrightarrow> err \<noteq> []) \<and> (rest \<noteq> [] \<longrightarrow> err \<noteq> [])"
proof (induction ch arbitrary: cs es)
  case Nil
  then show ?case by auto
next
  case (Cons l ch)
  consider (blank) "isBlank l" | (comment) "isComment l" | (row) "isRow l"
    using line_kinds by blast
  then show ?case
  proof cases
    case blank
    with Cons show ?thesis by (simp add: processLines_blank)
  next
    case comment
    with Cons show ?thesis by (simp add: processLines_comment)
  next
    case row
    from parseRow_shape[of "TrimSpace l" m] show ?thesis
    proof (elim disjE exE)
      fix e errs assume "parseRow (TrimSpace l) m = (None, e # errs)"
      with Cons.prems row show ?thesis by (auto simp add: processLines_row_bad)
    next
      fix entry assume "parseRow (TrimSpace l) m = (Some entry, [])"
      with Cons row show ?thesis by (simp add: processLines_row_ok)
    qed
  qed
qed

lemma expectColumns_result:
  "expectColumns m name ch = (p, err, rest) \<Longrightarrow>
   (p = None \<longleftrightarrow> err \<noteq> []) \<and> (rest \<noteq> [] \<longrightarrow> err \<noteq> [])"
  by (cases ch)
     (auto simp add: expectColumns_def putBack_Cons
        split: if_splits sum.splits option.splits prod.splits dest!: processLines_result)

lemma expectName_result:
  "expectName m ch = (p, err, rest) \<Longrightarrow>
   (p = None \<longleftrightarrow> err \<noteq> []) \<and> (rest \<noteq> [] \<longrightarrow> err \<noteq> [])"
  by (cases ch)
     (auto simp add: expectName_def putBack_Cons split: if_splits dest!: expectColumns_result)

lemma expectHeader_result:
  "expectHeader m ch = (p, err, rest) \<Longrightarrow>
   (p = None \<longleftrightarrow> err \<noteq> []) \<and> (rest \<noteq> [] \<longrightarrow> err \<noteq> [])"
  by (cases ch)
     (auto simp add: expectHeader_def split: if_splits dest!: expectName_result)

text \<open>
  Whenever the reader fails, \<open>ReadPalette\<close> returns an error: its own, or the reader's
  error appended by the deferred call once every line has been received.
\<close>

theorem reader_failure_is_reported:
  "failure r = Some e \<Longrightarrow> snd (ReadPalette r m) \<noteq> []"
proof -
  assume f: "failure r = Some e"
  obtain p err rest where h: "expectHeader m (scanned r) = (p, err, rest)"
    by (metis prod_cases3)
  from expectHeader_result[OF h] f h show ?thesis
    by (cases "rest = []") (auto simp add: ReadPalette_def readLines_def linesErr_def)
qed

theorem reader_failure_is_reported_witness:
  "failure \<lparr>scanned = [str ''foobar'', str ''more''], failure = Some (readError ''read failed'')\<rparr> =
     Some (readError ''read failed'') \<and>
   snd (ReadPalette \<lparr>scanned = [str ''foobar'', str ''more''],
          failure = Some (readError ''read failed'')\<rparr> ParsingModeStrict) \<noteq> [] \<and>
   ReadPalette \<lparr>scanned = [str ''foobar'', str ''more''],
          failure = Some (readError ''read failed'')\<rparr> ParsingModeStrict = (None, [errBadHeader]) \<and>
   ReadPalette \<lparr>scanned = [str ''foobar''],
          failure = Some (readError ''read failed'')\<rparr> ParsingModeStrict =
     (None, [errBadHeader, readError ''read failed''])"
proof -
  have f: "failure \<lparr>scanned = [str ''foobar'', str ''more''], failure = Some (readError ''read failed'')\<rparr> =
     Some (readError ''read failed'')"
    by simp
  have "ReadPalette \<lparr>scanned = [str ''foobar'', str ''more''],
          failure = Some (readError ''read failed'')\<rparr> ParsingModeStrict = (None, [errBadHeader])"
    and "ReadPalette \<lparr>scanned = [str ''foobar''],
          failure = Some (readError ''read failed'')\<rparr> ParsingModeStrict =
     (None, [errBadHeader, readError ''read failed''])"
    by (simp_all add: stage_defs)
  with reader_failure_is_reported[OF f, of ParsingModeStrict] f show ?thesis
    by blast
qed

text \<open>
  With a reader that does not fail, \<open>ReadPalette\<close> returns a palette or an error, never
  both and never neither.
\<close>

theorem palette_or_error:
  "failure r = None \<Longrightarrow> (fst (ReadPalette r m) = None \<longleftrightarrow> snd (ReadPalette r m) \<noteq> [])"
proof -
  assume f: "failure r = None"
  obtain p err rest where h: "expectHeader m (scanned r) = (p, err, rest)"
    by (metis prod_cases3)
  from expectHeader_result[OF h] f h show ?thesis
    by (auto simp add: ReadPalette_def readLines_def linesErr_def)
qed

theorem palette_or_error_witness:
  "failure \<lparr>scanned = validPaletteStrict, failure = None\<rparr> = None \<and>
   fst (ReadPalette \<lparr>scanned = validPaletteStrict, failure = None\<rparr> ParsingModeStrict) \<noteq> None \<and>
   snd (ReadPalette \<lparr>scanned = validPaletteStrict, failure = None\<rparr> ParsingModeStrict) = [] \<and>
   failure \<lparr>scanned = [str ''foobar''], failure = None\<rparr> = None \<and>
   fst (ReadPalette \<lparr>scanned = [str ''foobar''], failure = None\<rparr> ParsingModeLenient) = None \<and>
   snd (ReadPalette \<lparr>scanned = [str ''foobar''], failure = None\<rparr> ParsingModeLenient) \<noteq> []"
proof -
  have f: "failure \<lparr>scanned = ls, failure = None\<rparr> = None" for ls :: "gostring list"
    by simp
  have a: "snd (ReadPalette \<lparr>scanned = validPaletteStrict, failure = None\<rparr> ParsingModeStrict) = []"
    by (simp add: validPaletteStrict_decodes)
  have b: "fst (ReadPalette \<lparr>scanned = [str ''foobar''], failure = None\<rparr> ParsingModeLenient) = None"
    by (simp add: stage_defs)
  from palette_or_error[OF f, of validPaletteStrict ParsingModeStrict] a
    palette_or_error[OF f, of "[str ''foobar'']" ParsingModeLenient] b f
  show ?thesis by blast
qed

lemma validPaletteStrict_decodes_failing:
  "ReadPalette \<lparr>scanned = validPaletteStrict, failure = Some e\<rparr> m =
     (Some validPaletteStrictDecoded, [e])"
  using validPaletteStrict_body[of m] scan_2
  by (simp add: stage_defs validPaletteStrict_def validPaletteStrictDecoded_def)

text \<open>
  Claim C1 says that a reader which yields lines and then fails makes \<open>ReadPalette\<close>
  return an error and no palette. The test \<^verbatim>\<open>reader errors out\<close> wraps \<open>validPaletteStrict\<close>
  in a reader that fails at the end of the input; every line is well formed, the body of
  \<open>ReadPalette\<close> assigns the palette to its result \<^verbatim>\<open>p\<close>, and the deferred call then only
  appends the reader's error to \<^verbatim>\<open>err\<close>: the palette is returned together with the error,
  in both modes. Every other path that returns an error leaves \<^verbatim>\<open>p\<close> nil.
\<close>

theorem palette_returned_with_read_error:
  "ReadPalette \<lparr>scanned = validPaletteStrict, failure = Some (readError ''read failed'')\<rparr>
     ParsingModeLenient = (Some validPaletteStrictDecoded, [readError ''read failed'']) \<and>
   ReadPalette \<lparr>scanned = validPaletteStrict, failure = Some (readError ''read failed'')\<rparr>
     ParsingModeStrict = (Some validPaletteStrictDecoded, [readError ''read failed''])"
  by (simp add: validPaletteStrict_decodes_failing)

section \<open>Separators are counted rune by rune\<close>

text \<open>
  Claim C6 says that a row is split on runs of white space, so that a fourth token is the
  name. The callback counts the white-space runes it has taken as separators, not the
  runs: in \<^verbatim>\<open>0  127 255 red\<close> the two spaces after the first field use up two of the three
  separators, the third field is \<^verbatim>\<open>255 red\<close> and the entry has no name, in both modes. In
  \<^verbatim>\<open>0   0   0 Black\<close> the first run uses up all three, and Strict reports a missing
  field. In \<^verbatim>\<open>1 2 3  red\<close> the name keeps the second space of the run before it.
\<close>

theorem separators_counted_by_rune:
  "rowFields (str ''0  127 255 red'') = [str ''0'', str ''127'', str ''255 red''] \<and>
   parseRow (str ''0  127 255 red'') ParsingModeLenient =
     (Some \<lparr>EntryName = [], Color = \<lparr>R = 0, G = 127, B = 255, A = 255\<rparr>\<rparr>, []) \<and>
   parseRow (str ''0  127 255 red'') ParsingModeStrict =
     (Some \<lparr>EntryName = [], Color = \<lparr>R = 0, G = 127, B = 255, A = 255\<rparr>\<rparr>, []) \<and>
   rowFields (str ''0   0   0 Black'') = [str ''0'', str ''0   0 Black''] \<and>
   parseRow (str ''0   0   0 Black'') ParsingModeStrict = (None, [errMissingField]) \<and>
   rowFields (str ''1 2 3  red'') = [str ''1'', str ''2'', str ''3'', str '' red'']"
  by (simp add: row_defs)

section \<open>Rows with single separators\<close>

lemma splitFn_simps:
  "\<not> IsSpace r \<Longrightarrow> splitFn k r = (False, k)"
  "IsSpace r \<Longrightarrow> k < 3 \<Longrightarrow> splitFn k r = (True, Suc k)"
  "splitFn 3 r = (False, 3)"
  by (simp_all add: splitFn_def)

lemma FieldsFunc_word:
  "\<forall>r \<in> set w. \<not> IsSpace r \<Longrightarrow>
   FieldsFunc splitFn k (Some u) (w @ rest) = FieldsFunc splitFn k (Some (u @ w)) rest"
  by (induction w arbitrary: u) (simp_all add: splitFn_simps)

lemma FieldsFunc_word_start:
  "w \<noteq> [] \<Longrightarrow> \<forall>r \<in> set w. \<not> IsSpace r \<Longrightarrow>
   FieldsFunc splitFn k None (w @ rest) = FieldsFunc splitFn k (Some w) rest"
  using FieldsFunc_word[of "tl w" k "[hd w]" rest]
  by (cases w) (simp_all add: splitFn_simps)

lemma FieldsFunc_separator:
  "IsSpace s \<Longrightarrow> k < 3 \<Longrightarrow>
   FieldsFunc splitFn k (Some u) (s # rest) = u # FieldsFunc splitFn (Suc k) None rest"
  by (simp add: splitFn_simps)

lemma FieldsFunc_spent_open:
  "FieldsFunc splitFn 3 (Some u) rest = [u @ rest]"
  by (induction rest arbitrary: u) (simp_all add: splitFn_simps)

lemma FieldsFunc_spent:
  "FieldsFunc splitFn 3 None rest = (if rest = [] then [] else [rest])"
  by (cases rest) (simp_all add: splitFn_simps FieldsFunc_spent_open)

lemma FieldsFunc_length:
  "k \<le> 3 \<Longrightarrow> length (FieldsFunc splitFn k cur l) \<le> 4 - k"
proof (induction l arbitrary: k cur)
  case Nil
  then show ?case by (cases cur) auto
next
  case (Cons r rs)
  show ?case
  proof (cases "IsSpace r \<and> k < 3")
    case True
    then have s: "splitFn k r = (True, Suc k)" by (simp add: splitFn_simps)
    from True have "Suc k \<le> 3" by simp
    from Cons.IH[OF this, of None] True show ?thesis
      using s by (cases cur) auto
  next
    case False
    then have s: "splitFn k r = (False, k)" by (auto simp add: splitFn_def)
    from Cons.IH[OF Cons.prems] show ?thesis
      using s by (cases cur) auto
  qed
qed

lemma FieldsFunc_field:
  "w \<noteq> [] \<Longrightarrow> \<forall>r \<in> set w. \<not> IsSpace r \<Longrightarrow> IsSpace s \<Longrightarrow> k < 3 \<Longrightarrow>
   FieldsFunc splitFn k None (w @ s # rest) = w # FieldsFunc splitFn (Suc k) None rest"
  by (simp add: FieldsFunc_word_start FieldsFunc_separator del: FieldsFunc.simps)

lemma FieldsFunc_last:
  "w \<noteq> [] \<Longrightarrow> \<forall>r \<in> set w. \<not> IsSpace r \<Longrightarrow> FieldsFunc splitFn k None w = [w]"
  using FieldsFunc_word_start[of w k "[]"] by simp

text \<open>
  A row never has more than four fields. Where the first three separators are single
  white-space runes between fields without white space, the fields are the three numbers
  and, if anything follows the third separator, all of it as the fourth field, which
  \<open>parseRow\<close> takes as the name of the entry; with exactly three such fields the name is
  empty.
\<close>

theorem single_separators_split:
  assumes "a \<noteq> []" "\<forall>r \<in> set a. \<not> IsSpace r" "b \<noteq> []" "\<forall>r \<in> set b. \<not> IsSpace r"
    "c \<noteq> []" "\<forall>r \<in> set c. \<not> IsSpace r" "IsSpace s1" "IsSpace s2" "IsSpace s3" "n \<noteq> []"
  shows "length (rowFields line) \<le> 4 \<and>
    rowFields (a @ s1 # b @ s2 # c) = [a, b, c] \<and>
    rowFields (a @ s1 # b @ s2 # c @ s3 # n) = [a, b, c, n] \<and>
    (\<exists>col. parseRow (a @ s1 # b @ s2 # c) ParsingModeLenient =
       (Some \<lparr>EntryName = [], Color = col\<rparr>, [])) \<and>
    (\<exists>col. parseRow (a @ s1 # b @ s2 # c @ s3 # n) ParsingModeLenient =
       (Some \<lparr>EntryName = n, Color = col\<rparr>, []))"
proof -
  have len: "length (rowFields line) \<le> 4"
    using FieldsFunc_length[of 0 None line] by (simp add: rowFields_def)
  have three: "rowFields (a @ s1 # b @ s2 # c) = [a, b, c]"
    using assms
    by (simp add: rowFields_def FieldsFunc_field FieldsFunc_last del: FieldsFunc.simps)
  have "FieldsFunc splitFn 0 None (a @ s1 # b @ s2 # c @ s3 # n) =
      a # b # c # FieldsFunc splitFn 3 None n"
    using assms
    by (simp add: FieldsFunc_field numeral_3_eq_3 del: FieldsFunc.simps)
  then have four: "rowFields (a @ s1 # b @ s2 # c @ s3 # n) = [a, b, c, n]"
    using assms(10) by (simp add: rowFields_def FieldsFunc_spent del: FieldsFunc.simps)
  from three four len show ?thesis
    by (simp add: parseRow_lenient_eq)
qed


theorem single_separators_split_witness:
  "list_all (\<lambda>r. \<not> IsSpace r) (str ''0'' @ str ''127'' @ str ''255'') \<and> IsSpace 32 \<and>
   length (rowFields (str ''0  127 255 red'')) \<le> 4 \<and>
   rowFields (str ''255 255 255'') = [str ''255'', str ''255'', str ''255''] \<and>
   rowFields (str ''0 127 255 color 1'') = [str ''0'', str ''127'', str ''255'', str ''color 1''] \<and>
   (\<exists>col. parseRow (str ''255 255 255'') ParsingModeLenient =
       (Some \<lparr>EntryName = [], Color = col\<rparr>, [])) \<and>
   (\<exists>col. parseRow (str ''0 127 255 color 1'') ParsingModeLenient =
       (Some \<lparr>EntryName = str ''color 1'', Color = col\<rparr>, []))"
proof -
  have h: "str ''0'' \<noteq> []" "\<forall>r \<in> set (str ''0''). \<not> IsSpace r"
    "str ''127'' \<noteq> []" "\<forall>r \<in> set (str ''127''). \<not> IsSpace r"
    "str ''255'' \<noteq> []" "\<forall>r \<in> set (str ''255''). \<not> IsSpace r"
    "IsSpace 32" "IsSpace 32" "IsSpace 32" "str ''color 1'' \<noteq> []"
    by (simp_all add: IsSpace_def str_simps)
  have l: "list_all (\<lambda>r. \<not> IsSpace r) (str ''0'' @ str ''127'' @ str ''255'')"
    by (simp add: IsSpace_def str_simps)
  have e: "str ''0'' @ 32 # str ''127'' @ 32 # str ''255'' @ 32 # str ''color 1'' = str ''0 127 255 color 1''"
    by (simp add: str_simps)
  from single_separators_split[OF h, of "str ''0  127 255 red''"]
  have "length (rowFields (str ''0  127 255 red'')) \<le> 4"
    and "rowFields (str ''0 127 255 color 1'') = [str ''0'', str ''127'', str ''255'', str ''color 1'']"
    and "\<exists>col. parseRow (str ''0 127 255 color 1'') ParsingModeLenient =
       (Some \<lparr>EntryName = str ''color 1'', Color = col\<rparr>, [])"
    unfolding e by blast+
  moreover
  have h': "\<forall>r \<in> set (str ''255''). \<not> IsSpace r" "str ''255'' \<noteq> []"
    using h by blast+
  have e': "str ''255'' @ 32 # str ''255'' @ 32 # str ''255'' = str ''255 255 255''"
    by (simp add: str_simps)
  from single_separators_split[OF h'(2,1) h'(2,1) h'(2,1) h(7-10), of "[]"]
  have "rowFields (str ''255 255 255'') = [str ''255'', str ''255'', str ''255'']"
    and "\<exists>col. parseRow (str ''255 255 255'') ParsingModeLenient =
       (Some \<lparr>EntryName = [], Color = col\<rparr>, [])"
    unfolding e' by blast+
  ultimately show ?thesis using l h(7) by blast
qed

end
